theory Spec2Isabelle
  imports Complex_Main "HOL-Library.AList"
begin

section \<open>Text primitives\<close>

text \<open>The engine works on JavaScript strings. A text is modelled as a \<open>string\<close>, a list
  of 8-bit characters that stand for the code units below U+0100: the model covers the
  texts written in that range, and a character of a pattern outside it can never match.
  The order of code units is decided on their bits, most significant first
  (\<open>char_le_iff\<close> below relates it to the numeric order).\<close>

fun bits :: "char \<Rightarrow> bool list" where
  "bits (Char b0 b1 b2 b3 b4 b5 b6 b7) = [b7, b6, b5, b4, b3, b2, b1, b0]"

fun lex_le :: "bool list \<Rightarrow> bool list \<Rightarrow> bool" where
  "lex_le (x # xs) (y # ys) = (if x = y then lex_le xs ys else y)"
| "lex_le _ _ = True"

definition char_le :: "char \<Rightarrow> char \<Rightarrow> bool" where
  "char_le a b = lex_le (bits a) (bits b)"

definition in_range :: "char \<Rightarrow> char \<Rightarrow> char \<Rightarrow> bool" where
  "in_range lo hi c = (char_le lo c \<and> char_le c hi)"

fun set_bit5 :: "bool \<Rightarrow> char \<Rightarrow> char" where
  "set_bit5 v (Char b0 b1 b2 b3 b4 b5 b6 b7) = Char b0 b1 b2 b3 b4 v b6 b7"

fun bits_value :: "bool list \<Rightarrow> nat" where
  "bits_value [] = 0"
| "bits_value (x # xs) = of_bool x * 2 ^ length xs + bits_value xs"

text \<open>White space of the language below U+0100: TAB, LF, VT, FF, CR, SP and NBSP.\<close>

definition isWhiteSpace :: "char \<Rightarrow> bool" where
  "isWhiteSpace c = (in_range (CHR 0x09) (CHR 0x0D) c \<or> c = CHR 0x20 \<or> c = CHR 0xA0)"

definition isLineTerminator :: "char \<Rightarrow> bool" where
  "isLineTerminator c = (c = CHR 0x0A \<or> c = CHR 0x0D)"

definition isWordChar :: "char \<Rightarrow> bool" where
  "isWordChar c = (in_range CHR ''0'' CHR ''9'' c \<or> in_range CHR ''A'' CHR ''Z'' c
     \<or> c = CHR ''_'' \<or> in_range CHR ''a'' CHR ''z'' c)"

text \<open>\<^verbatim>\<open>toLowerCase\<close> adds 32 to the letters A-Z and U+00C0-U+00DE (U+00D7 apart),
  which all have bit 5 clear. \<^verbatim>\<open>toUpperCase\<close> is only ever applied to the text matched
  by a pattern of ASCII letters and a colon, where it subtracts 32 from a-z.\<close>

definition lowerChar :: "char \<Rightarrow> char" where
  "lowerChar c =
     (if in_range CHR ''A'' CHR ''Z'' c \<or> (in_range (CHR 0xC0) (CHR 0xDE) c \<and> c \<noteq> CHR 0xD7)
      then set_bit5 True c else c)"

definition upperAscii :: "char \<Rightarrow> char" where
  "upperAscii c = (if in_range CHR ''a'' CHR ''z'' c then set_bit5 False c else c)"

text \<open>Canonicalisation for a pattern with the flag i and without the flag u: the
  upper-case form of the code unit. U+00DF, U+00B5 and U+00FF have no upper-case form
  below U+0100 and none that another code unit of the range shares, so they stand for
  themselves.\<close>

definition canonicalize :: "char \<Rightarrow> char" where
  "canonicalize c =
     (if in_range CHR ''a'' CHR ''z'' c \<or> (in_range (CHR 0xE0) (CHR 0xFE) c \<and> c \<noteq> CHR 0xF7)
      then set_bit5 False c else c)"

definition toLowerCase :: "string \<Rightarrow> string" where
  "toLowerCase s = map lowerChar s"

definition toUpperCase :: "string \<Rightarrow> string" where
  "toUpperCase s = map upperAscii s"

definition trim :: "string \<Rightarrow> string" where
  "trim s = rev (dropWhile isWhiteSpace (rev (dropWhile isWhiteSpace s)))"

fun startsWith :: "string \<Rightarrow> string \<Rightarrow> bool" where
  "startsWith s [] = True"
| "startsWith [] (p # ps) = False"
| "startsWith (c # cs) (p # ps) = (c = p \<and> startsWith cs ps)"

fun str_includes :: "string \<Rightarrow> string \<Rightarrow> bool" where
  "str_includes [] t = (t = [])"
| "str_includes (c # cs) t = (startsWith (c # cs) t \<or> str_includes cs t)"

fun splitOn :: "char \<Rightarrow> string \<Rightarrow> string \<Rightarrow> string list" where
  "splitOn sep piece [] = [rev piece]"
| "splitOn sep piece (c # cs) =
     (if c = sep then rev piece # splitOn sep [] cs else splitOn sep (c # piece) cs)"

definition splitLines :: "string \<Rightarrow> string list" where
  "splitLines s = splitOn (CHR 0x0A) [] s"

fun join :: "string \<Rightarrow> string list \<Rightarrow> string" where
  "join sep [] = []"
| "join sep [x] = x"
| "join sep (x # y # ys) = x @ sep @ join sep (y # ys)"

section \<open>Regular expressions\<close>

text \<open>The patterns of the source are written as terms: a literal character, a class
  \<^verbatim>\<open>[...]\<close> and a negated class \<^verbatim>\<open>[^...]\<close> of characters, ranges, \<^verbatim>\<open>\w\<close> and \<^verbatim>\<open>\s\<close>, the
  dot, the assertions \<^verbatim>\<open>^\<close>, \<^verbatim>\<open>$\<close> and \<^verbatim>\<open>\b\<close>, sequence, alternative, repetition (least
  count, greatest count if any, greedy or lazy) and numbered capture group.\<close>

datatype citem = CChar char | CRange char char | CWord | CSpace

datatype regex =
    Lit char
  | Cls "citem list"
  | NCls "citem list"
  | Dot
  | Bol
  | Eol
  | WordB
  | Eps
  | Seq regex regex
  | Alt regex regex
  | Rep nat "nat option" bool regex
  | Grp nat regex

text \<open>A state of the matcher: the text before the current position, reversed, the text
  from the current position on, and the groups captured so far.\<close>

type_synonym mstate = "string \<times> string \<times> (nat \<times> string) list"

fun citem_has :: "citem \<Rightarrow> char \<Rightarrow> bool" where
  "citem_has (CChar a) c = (a = c)"
| "citem_has (CRange lo hi) c = in_range lo hi c"
| "citem_has CWord c = isWordChar c"
| "citem_has CSpace c = isWhiteSpace c"

definition class_has :: "bool \<Rightarrow> citem list \<Rightarrow> char \<Rightarrow> bool" where
  "class_has ic items c =
     (if ic then list_ex (\<lambda>i. citem_has i c \<or> citem_has i (canonicalize c) \<or> citem_has i (lowerChar c)) items
      else list_ex (\<lambda>i. citem_has i c) items)"

definition char_matches :: "bool \<Rightarrow> char \<Rightarrow> char \<Rightarrow> bool" where
  "char_matches ic a c = (if ic then canonicalize a = canonicalize c else a = c)"

definition at_bol :: "bool \<Rightarrow> string \<Rightarrow> bool" where
  "at_bol ml b = (case b of [] \<Rightarrow> True | p # _ \<Rightarrow> ml \<and> isLineTerminator p)"

definition at_eol :: "bool \<Rightarrow> string \<Rightarrow> bool" where
  "at_eol ml r = (case r of [] \<Rightarrow> True | c # _ \<Rightarrow> ml \<and> isLineTerminator c)"

definition at_wordb :: "string \<Rightarrow> string \<Rightarrow> bool" where
  "at_wordb b r =
     ((case b of [] \<Rightarrow> False | p # _ \<Rightarrow> isWordChar p) \<noteq> (case r of [] \<Rightarrow> False | c # _ \<Rightarrow> isWordChar c))"

fun one_char :: "(char \<Rightarrow> bool) \<Rightarrow> mstate \<Rightarrow> mstate list" where
  "one_char P (b, [], g) = []"
| "one_char P (b, c # cs, g) = (if P c then [(c # b, cs, g)] else [])"

fun rsize :: "regex \<Rightarrow> nat" where
  "rsize (Seq p q) = Suc (rsize p + rsize q)"
| "rsize (Alt p q) = Suc (rsize p + rsize q)"
| "rsize (Rep mn mx gr p) = Suc (rsize p)"
| "rsize (Grp n p) = Suc (rsize p)"
| "rsize _ = 0"

fun rep_min :: "regex \<Rightarrow> nat" where
  "rep_min (Rep mn mx gr p) = mn"
| "rep_min _ = 0"

text \<open>\<open>ends re st\<close> lists the states in which a match of \<open>re\<close> that starts in \<open>st\<close>
  can end, in the order in which the backtracking matcher tries them: the first
  alternative first, the longest repetition first when greedy and the shortest first
  when lazy. An iteration of a repetition that consumes nothing is given up, as in the
  language definition.\<close>

definition remaining :: "mstate \<Rightarrow> nat" where
  "remaining st = length (fst (snd st))"

function ends :: "bool \<Rightarrow> bool \<Rightarrow> regex \<Rightarrow> mstate \<Rightarrow> mstate list" where
  "ends ic ml (Lit a) st = one_char (char_matches ic a) st"
| "ends ic ml (Cls items) st = one_char (class_has ic items) st"
| "ends ic ml (NCls items) st = one_char (\<lambda>c. \<not> class_has ic items c) st"
| "ends ic ml Dot st = one_char (\<lambda>c. \<not> isLineTerminator c) st"
| "ends ic ml Bol st = (if at_bol ml (fst st) then [st] else [])"
| "ends ic ml Eol st = (if at_eol ml (fst (snd st)) then [st] else [])"
| "ends ic ml WordB st = (if at_wordb (fst st) (fst (snd st)) then [st] else [])"
| "ends ic ml Eps st = [st]"
| "ends ic ml (Seq p q) st = concat (map (ends ic ml q) (ends ic ml p st))"
| "ends ic ml (Alt p q) st = ends ic ml p st @ ends ic ml q st"
| "ends ic ml (Grp n p) st =
     map (\<lambda>(b', r', g'). (b', r', (n, rev (take (length b' - length (fst st)) b')) # g'))
       (ends ic ml p st)"
| "ends ic ml (Rep mn mx gr p) st =
     (if mx = Some 0 then [st]
      else let again = concat (map (\<lambda>st'.
                 if mn = 0 \<and> \<not> remaining st' < remaining st then []
                 else ends ic ml (Rep (mn - 1) (map_option (\<lambda>k. k - 1) mx) gr p) st')
               (ends ic ml p st))
           in if mn \<noteq> 0 then again else if gr then again @ [st] else st # again)"
  by pat_completeness auto
termination
  by (relation "measures [\<lambda>(ic, ml, re, st). rsize re, \<lambda>(ic, ml, re, st). rep_min re,
                          \<lambda>(ic, ml, re, st). remaining st]") auto


definition seqs :: "regex list \<Rightarrow> regex" where
  "seqs rs = foldr Seq rs Eps"

definition str :: "string \<Rightarrow> regex" where
  "str s = foldr Seq (map Lit s) Eps"

fun alts :: "regex list \<Rightarrow> regex" where
  "alts [] = Eps"
| "alts [r] = r"
| "alts (r # rs) = Alt r (alts rs)"

definition Star :: "regex \<Rightarrow> regex" where
  "Star r = Rep 0 None True r"

definition Plus :: "regex \<Rightarrow> regex" where
  "Plus r = Rep 1 None True r"

definition Opt :: "regex \<Rightarrow> regex" where
  "Opt r = Rep 0 (Some 1) True r"

definition LazyStar :: "regex \<Rightarrow> regex" where
  "LazyStar r = Rep 0 None False r"

definition has_flag :: "char \<Rightarrow> string \<Rightarrow> bool" where
  "has_flag f flags = (f \<in> set flags)"

text \<open>One match attempt at a fixed position: the matched text and the capture groups
  of the first alternative that succeeds.\<close>

type_synonym groups = "(nat \<times> string) list"

definition match_at :: "regex \<Rightarrow> bool \<Rightarrow> bool \<Rightarrow> string \<Rightarrow> string \<Rightarrow> (string \<times> groups) option" where
  "match_at re ic ml b r =
     (case ends ic ml re (b, r, []) of
        [] \<Rightarrow> None
      | (b', r', g) # _ \<Rightarrow> Some (rev (take (length b' - length b) b'), g))"

text \<open>Leftmost match at or after the current position: the text before the match
  (reversed), the matched text and the groups.\<close>

fun search :: "regex \<Rightarrow> bool \<Rightarrow> bool \<Rightarrow> string \<Rightarrow> string \<Rightarrow> (string \<times> string \<times> groups) option" where
  "search re ic ml b [] =
     (case match_at re ic ml b [] of None \<Rightarrow> None | Some (t, g) \<Rightarrow> Some (b, t, g))"
| "search re ic ml b (c # cs) =
     (case match_at re ic ml b (c # cs) of
        None \<Rightarrow> search re ic ml (c # b) cs
      | Some (t, g) \<Rightarrow> Some (b, t, g))"

text \<open>All matches of a global pattern, left to right; after a match the next attempt is
  at its end, one position further when the match was empty.\<close>

fun scan :: "regex \<Rightarrow> bool \<Rightarrow> bool \<Rightarrow> string \<Rightarrow> string \<Rightarrow> nat \<Rightarrow> (string \<times> groups) list" where
  "scan re ic ml b [] skip =
     (if skip = 0 then (case match_at re ic ml b [] of None \<Rightarrow> [] | Some m \<Rightarrow> [m]) else [])"
| "scan re ic ml b (c # cs) skip =
     (if skip > 0 then scan re ic ml (c # b) cs (skip - 1)
      else case match_at re ic ml b (c # cs) of
             None \<Rightarrow> scan re ic ml (c # b) cs 0
           | Some (t, g) \<Rightarrow> (t, g) # scan re ic ml (c # b) cs (length t - 1))"

fun replace_scan :: "regex \<Rightarrow> bool \<Rightarrow> bool \<Rightarrow> (string \<times> groups \<Rightarrow> string) \<Rightarrow> string \<Rightarrow> string \<Rightarrow> nat \<Rightarrow> string" where
  "replace_scan re ic ml f b [] skip =
     (if skip = 0 then (case match_at re ic ml b [] of None \<Rightarrow> [] | Some m \<Rightarrow> f m) else [])"
| "replace_scan re ic ml f b (c # cs) skip =
     (if skip > 0 then replace_scan re ic ml f (c # b) cs (skip - 1)
      else case match_at re ic ml b (c # cs) of
             None \<Rightarrow> c # replace_scan re ic ml f (c # b) cs 0
           | Some (t, g) \<Rightarrow>
               (if t = [] then f (t, g) @ c # replace_scan re ic ml f (c # b) cs 0
                else f (t, g) @ replace_scan re ic ml f (c # b) cs (length t - 1)))"

text \<open>Splitting at the matches of a pattern: an empty match at the start of the current
  piece is passed over, any other match closes the piece.\<close>

fun split_scan :: "regex \<Rightarrow> bool \<Rightarrow> bool \<Rightarrow> string \<Rightarrow> string \<Rightarrow> string \<Rightarrow> nat \<Rightarrow> string list" where
  "split_scan re ic ml b [] piece skip = [rev piece]"
| "split_scan re ic ml b (c # cs) piece skip =
     (if skip > 0 then split_scan re ic ml (c # b) cs piece (skip - 1)
      else case match_at re ic ml b (c # cs) of
             None \<Rightarrow> split_scan re ic ml (c # b) cs (c # piece) 0
           | Some (t, g) \<Rightarrow>
               (if t = [] then
                  (if piece = [] then split_scan re ic ml (c # b) cs [c] 0
                   else rev piece # split_scan re ic ml (c # b) cs [c] 0)
                else rev piece # split_scan re ic ml (c # b) cs [] (length t - 1)))"

subsection \<open>The methods of RegExp and String that take a pattern\<close>

text \<open>A pattern is written with its flags, as in the source: \<open>regexp_test re ''im'' s\<close>
  is \<^verbatim>\<open>/re/im.test(s)\<close>. \<open>match_global\<close> and \<open>replace_global\<close> are \<^verbatim>\<open>match\<close> and
  \<^verbatim>\<open>replace\<close> with a pattern that has the flag g, \<open>match_first\<close> and \<open>replace_first\<close>
  with one that has not.\<close>

definition regexp_test :: "regex \<Rightarrow> string \<Rightarrow> string \<Rightarrow> bool" where
  "regexp_test re flags s =
     (search re (has_flag CHR ''i'' flags) (has_flag CHR ''m'' flags) [] s \<noteq> None)"

definition match_first :: "regex \<Rightarrow> string \<Rightarrow> string \<Rightarrow> (string \<times> groups) option" where
  "match_first re flags s =
     map_option snd (search re (has_flag CHR ''i'' flags) (has_flag CHR ''m'' flags) [] s)"

definition match_global :: "regex \<Rightarrow> string \<Rightarrow> string \<Rightarrow> string list" where
  "match_global re flags s =
     map fst (scan re (has_flag CHR ''i'' flags) (has_flag CHR ''m'' flags) [] s 0)"

definition replace_global :: "regex \<Rightarrow> string \<Rightarrow> (string \<times> groups \<Rightarrow> string) \<Rightarrow> string \<Rightarrow> string" where
  "replace_global re flags f s =
     replace_scan re (has_flag CHR ''i'' flags) (has_flag CHR ''m'' flags) f [] s 0"

definition replace_first :: "regex \<Rightarrow> string \<Rightarrow> (string \<times> groups \<Rightarrow> string) \<Rightarrow> string \<Rightarrow> string" where
  "replace_first re flags f s =
     (case search re (has_flag CHR ''i'' flags) (has_flag CHR ''m'' flags) [] s of
        None \<Rightarrow> s
      | Some (b, t, g) \<Rightarrow> rev b @ f (t, g) @ drop (length b + length t) s)"

definition group :: "nat \<Rightarrow> groups \<Rightarrow> string" where
  "group n g = (case map_of g n of None \<Rightarrow> [] | Some t \<Rightarrow> t)"

definition split_regexp :: "regex \<Rightarrow> string \<Rightarrow> string \<Rightarrow> string list" where
  "split_regexp re flags s =
     (if s = [] then
        (case match_at re (has_flag CHR ''i'' flags) (has_flag CHR ''m'' flags) [] [] of
           None \<Rightarrow> [[]] | Some m \<Rightarrow> [])
      else split_scan re (has_flag CHR ''i'' flags) (has_flag CHR ''m'' flags) [] s [] 0)"

fun replace_substring :: "string \<Rightarrow> string \<Rightarrow> string \<Rightarrow> string" where
  "replace_substring [] pat rep = (if pat = [] then rep else [])"
| "replace_substring (c # cs) pat rep =
     (if startsWith (c # cs) pat then rep @ drop (length pat) (c # cs)
      else c # replace_substring cs pat rep)"


fun indexOf :: "string list \<Rightarrow> string \<Rightarrow> int" where
  "indexOf [] x = -1"
| "indexOf (y # ys) x = (if y = x then 0 else (let i = indexOf ys x in if i < 0 then -1 else i + 1))"

function number_to_string :: "nat \<Rightarrow> string" where
  "number_to_string n =
     (if n < 10 then [char_of (48 + n)]
      else number_to_string (n div 10) @ [char_of (48 + n mod 10)])"
  by pat_completeness auto
termination
  by (relation "measure id") auto

definition backslash :: string where
  "backslash = [CHR 0x5C]"

definition dquote :: string where
  "dquote = [CHR 0x22]"

section \<open>Rule validator (validators/rules.ts)\<close>

datatype severity = Error | Warning | Info

record ValidationViolation =
  rule :: string
  message :: string
  severity :: severity

record ValidationResult =
  isValid :: bool
  violations :: "ValidationViolation list"

text \<open>The schema \<^verbatim>\<open>z.object({content: z.string().min(1, msg)})\<close>: \<^verbatim>\<open>parse\<close> throws a
  ZodError whose first issue carries the message when the content has fewer than one
  character. The result is the message of the error caught by the caller, if any.\<close>

definition templateSchema_parse :: "string \<Rightarrow> string option" where
  "templateSchema_parse content =
     (if length content < 1 then Some ''Template content cannot be empty'' else None)"

definition sectionLabels :: regex where
  "sectionLabels = alts [str ''ROLE'', str ''CONTEXT'', str ''TASK'', str ''FORMAT'', str ''OUTPUT'']"

definition sectionOrder :: "string list" where
  "sectionOrder = [''ROLE'', ''CONTEXT'', ''TASK'', ''FORMAT'', ''OUTPUT'']"

definition push_if :: "bool \<Rightarrow> 'a \<Rightarrow> 'a list \<Rightarrow> 'a list" where
  "push_if c v vs = (if c then vs @ [v] else vs)"

definition foundSections :: "string \<Rightarrow> string list" where
  "foundSections content =
     List.map_filter
       (\<lambda>line. map_option (\<lambda>(t, g). toUpperCase (group 1 g))
                 (match_first (seqs [Bol, Grp 1 sectionLabels, Lit CHR '':'']) ''i'' line))
       (splitLines content)"

definition order_step :: "string \<Rightarrow> int \<times> ValidationViolation list \<Rightarrow> int \<times> ValidationViolation list" where
  "order_step section st =
     (let currentIndex = indexOf sectionOrder section in
      (currentIndex,
       push_if (currentIndex < fst st)
         \<lparr>rule = ''section-order'',
          message = ''Section '' @ section @ '' is out of order. Expected order: ''
                    @ join '', '' sectionOrder,
          severity = Warning\<rparr> (snd st)))"

definition validateStructure :: "string \<Rightarrow> ValidationViolation list \<Rightarrow> ValidationViolation list" where
  "validateStructure content vs =
     (let role = regexp_test (seqs [Bol, str ''ROLE:'']) ''im'' content;
          context = regexp_test (seqs [Bol, str ''CONTEXT:'']) ''im'' content;
          task = regexp_test (seqs [Bol, str ''TASK:'']) ''im'' content;
          format = regexp_test
            (seqs [Bol, Grp 1 (Alt (str ''FORMAT'') (str ''OUTPUT'')), Lit CHR '':'']) ''im'' content;
          vs = push_if (\<not> role)
            \<lparr>rule = ''required-sections'', message = ''Missing ROLE section'',
             severity = Error\<rparr> vs;
          vs = push_if (\<not> context)
            \<lparr>rule = ''required-sections'', message = ''Missing CONTEXT section'',
             severity = Error\<rparr> vs;
          vs = push_if (\<not> task)
            \<lparr>rule = ''required-sections'', message = ''Missing TASK section'',
             severity = Error\<rparr> vs;
          vs = push_if (\<not> format)
            \<lparr>rule = ''required-sections'', message = ''Missing FORMAT/OUTPUT section'',
             severity = Warning\<rparr> vs
      in snd (fold order_step (foundSections content) (-1, vs)))"

definition sentenceEnd :: regex where
  "sentenceEnd = Plus (Cls [CChar CHR ''.'', CChar CHR ''!'', CChar CHR ''?''])"

definition notParen :: regex where
  "notParen = Star (NCls [CChar CHR ''('', CChar CHR '')''])"

definition nestedParens :: regex where
  "nestedParens = seqs [Lit CHR ''('', notParen, Lit CHR ''('', notParen, Lit CHR '')'',
                        notParen, Lit CHR '')'']"

definition ambiguousTerms :: "string list" where
  "ambiguousTerms = [''maybe'', ''probably'', ''possibly'', ''might'', ''could'', ''should'', ''would'']"

definition ambiguous_step :: "string \<Rightarrow> string \<Rightarrow> ValidationViolation list \<Rightarrow> ValidationViolation list" where
  "ambiguous_step content term vs =
     push_if (regexp_test (seqs [WordB, str term, WordB]) ''i'' content)
       \<lparr>rule = ''ambiguous-language'',
        message = ''Avoid ambiguous terms like '' @ dquote @ term @ dquote,
        severity = Warning\<rparr> vs"

definition sentence_step :: "string \<Rightarrow> ValidationViolation list \<Rightarrow> ValidationViolation list" where
  "sentence_step sentence vs =
     push_if (length (trim sentence) > 150)
       \<lparr>rule = ''sentence-length'',
        message = ''Sentence exceeds recommended length of 150 characters'',
        severity = Warning\<rparr> vs"

definition validateContent :: "string \<Rightarrow> ValidationViolation list \<Rightarrow> ValidationViolation list" where
  "validateContent content vs =
     (let sentences = split_regexp sentenceEnd [] content;
          vs = fold sentence_step sentences vs;
          vs = push_if (regexp_test nestedParens [] content)
            \<lparr>rule = ''nested-instructions'',
             message = ''Avoid nested parentheses in instructions'',
             severity = Warning\<rparr> vs
      in fold (ambiguous_step content) ambiguousTerms vs)"

definition wordOrHyphen :: regex where
  "wordOrHyphen = Plus (Cls [CWord, CChar CHR ''-''])"

definition doubleBrace :: regex where
  "doubleBrace = seqs [str ''{{'', Plus (NCls [CChar CHR ''}'']), str ''}}'']"

text \<open>The three patterns of \<^verbatim>\<open>variableFormats\<close>. The second is written
  \<^verbatim>\<open>/[[]\w-]+]/g\<close> in the source: the class \<^verbatim>\<open>[[]\<close>, one word character, one
  hyphen, one or more closing brackets (the \<^verbatim>\<open>+\<close> follows the first \<^verbatim>\<open>]\<close>), and one
  more closing bracket.\<close>

definition variableFormats :: "regex list" where
  "variableFormats =
     [doubleBrace,
      seqs [Cls [CChar CHR ''[''], Cls [CWord], Lit CHR ''-'', Plus (Lit CHR '']''), Lit CHR '']''],
      seqs [Lit CHR ''$'', Lit CHR ''{'', wordOrHyphen, Lit CHR ''}'']]"

definition naming_step :: "string \<Rightarrow> ValidationViolation list \<Rightarrow> ValidationViolation list" where
  "naming_step variable vs =
     push_if (\<not> regexp_test (seqs [Bol, str ''{{'', wordOrHyphen, str ''}}'', Eol]) [] variable)
       \<lparr>rule = ''variable-naming'',
        message = ''Invalid variable format: '' @ variable
                  @ ''. Use alphanumeric characters and hyphens only'',
        severity = Error\<rparr> vs"

definition validateVariables :: "string \<Rightarrow> ValidationViolation list \<Rightarrow> ValidationViolation list" where
  "validateVariables content vs =
     (let foundFormats = filter (\<lambda>count. count > 0)
            (map (\<lambda>format. length (match_global format ''g'' content)) variableFormats);
          vs = push_if (length foundFormats > 1)
            \<lparr>rule = ''variable-format'',
             message = ''Inconsistent variable formats detected. Use {{variableName}} format consistently'',
             severity = Error\<rparr> vs;
          variables = match_global doubleBrace ''g'' content;
          uniqueVars = remdups (map toLowerCase variables);
          vs = fold naming_step variables vs
      in push_if (length uniqueVars = 0 \<and> length content > 500)
           \<lparr>rule = ''variable-usage'',
            message = ''Consider using variables for dynamic content in longer templates'',
            severity = Warning\<rparr> vs)"

text \<open>The bullet class of this file is written with the characters U+00E2, U+20AC and
  U+00A2 after the hyphen and the asterisk; U+20AC has no 8-bit code unit and cannot
  occur in a text of this model.\<close>

definition bulletClass :: "citem list" where
  "bulletClass = [CChar CHR ''-'', CChar CHR ''*'', CChar (CHR 0xE2), CChar (CHR 0xA2)]"

definition validateFormat :: "string \<Rightarrow> ValidationViolation list \<Rightarrow> ValidationViolation list" where
  "validateFormat content vs =
     (let bulletStyles = remdups (map (take 1)
            (match_global (seqs [Bol, Cls bulletClass, Cls [CSpace]]) ''gm'' content));
          vs = push_if (length bulletStyles > 1)
            \<lparr>rule = ''bullet-consistency'',
             message = ''Use consistent bullet point style throughout the template'',
             severity = Warning\<rparr> vs;
          sectionHeaders = match_global (seqs [Bol, Grp 1 sectionLabels, Lit CHR '':'']) ''gim'' content;
          inconsistentCase = list_ex (\<lambda>header. header \<noteq> toUpperCase header) sectionHeaders;
          vs = push_if inconsistentCase
            \<lparr>rule = ''section-case'',
             message = ''Use consistent uppercase for section headers (ROLE:, CONTEXT:, etc.)'',
             severity = Warning\<rparr> vs;
          sectionSpacing = match_global (Rep 3 None True (Lit CHR 0x0A)) ''g'' content;
          vs = push_if (sectionSpacing \<noteq> [])
            \<lparr>rule = ''section-spacing'',
             message = ''Use exactly one blank line between sections'',
             severity = Warning\<rparr> vs
      in push_if (regexp_test (seqs [Plus (Cls [CChar CHR '' '', CChar CHR 0x09]), Eol]) ''m'' content)
           \<lparr>rule = ''trailing-whitespace'',
            message = ''Remove trailing whitespace'',
            severity = Warning\<rparr> vs)"

definition validateTemplate :: "string \<Rightarrow> ValidationResult" where
  "validateTemplate content =
     (let vs = (case templateSchema_parse content of
                          Some msg \<Rightarrow> [\<lparr>rule = ''schema'', message = msg, severity = Error\<rparr>]
                        | None \<Rightarrow> []);
          vs = validateStructure content vs;
          vs = validateContent content vs;
          vs = validateVariables content vs;
          vs = validateFormat content vs
      in \<lparr>isValid = (length vs = 0), violations = vs\<rparr>)"


section \<open>Structure analyzer (analyzers/structure.ts)\<close>

record Structure =
  hasRole :: bool
  hasContext :: bool
  hasTask :: bool
  hasResponseFormat :: bool

text \<open>The three quality metrics are JavaScript numbers; they are computed here in exact
  rational arithmetic.\<close>

record Quality =
  clarity :: rat
  conciseness :: rat
  consistency :: rat

record TemplateAnalysis =
  "structure" :: Structure
  quality :: Quality
  suggestions :: "string list"

record TemplateMetadata =
  meta_type :: "string option"
  meta_version :: "string option"

definition clamp01 :: "rat \<Rightarrow> rat" where
  "clamp01 score = max 0 (min 1 score)"

definition calculateClarity :: "string \<Rightarrow> rat" where
  "calculateClarity content =
     (let score = 1;
          sentences = split_regexp sentenceEnd [] content;
          avgSentenceLength =
            rat_of_nat (fold (\<lambda>s sum. sum + length s) sentences 0) / rat_of_nat (length sentences);
          score = (if avgSentenceLength > 100 then score - 2 / 10 else score);
          score = (if avgSentenceLength > 150 then score - 3 / 10 else score);
          nestedCount = length (match_global (seqs [Lit CHR ''('', notParen, Lit CHR '')'']) ''g'' content);
          score = score - rat_of_nat nestedCount * (1 / 10);
          hasMarkers = regexp_test
            (seqs [Bol, Plus (Cls [CRange CHR ''A'' CHR ''Z'']), Lit CHR '':'']) ''m'' content;
          score = (if hasMarkers then score + 2 / 10 else score)
      in clamp01 score)"

definition wordFreq_step :: "string \<Rightarrow> (string \<times> nat) list \<Rightarrow> (string \<times> nat) list" where
  "wordFreq_step word wordFreq =
     AList.update word ((case map_of wordFreq word of None \<Rightarrow> 0 | Some n \<Rightarrow> n) + 1) wordFreq"

definition calculateConciseness :: "string \<Rightarrow> rat" where
  "calculateConciseness content =
     (let score = 1;
          words = split_regexp (Plus (Cls [CSpace])) [] (toLowerCase content);
          wordFreq = fold wordFreq_step words [];
          repetitiveWords = length (filter (\<lambda>freq. freq > 3) (map snd wordFreq));
          score = score - rat_of_nat repetitiveWords * (1 / 10);
          score = (if length content > 500 then score - 2 / 10 else score);
          score = (if length content > 1000 then score - 3 / 10 else score)
      in clamp01 score)"

definition calculateConsistency :: "string \<Rightarrow> rat" where
  "calculateConsistency content =
     (let score = 1;
          presentTense = seqs [WordB, Grp 1 (alts [str ''is'', str ''are'', str ''am'']), WordB];
          pastTense = seqs [WordB, Grp 1 (alts [str ''was'', str ''were'']), WordB];
          presentCount = length (match_global presentTense ''g'' content);
          pastCount = length (match_global pastTense ''g'' content);
          score = (if presentCount > 0 \<and> pastCount > 0 then score - 2 / 10 else score);
          bulletStyles = remdups (match_global (seqs [Bol, Cls bulletClass]) ''gm'' content);
          score = (if length bulletStyles > 1 then score - 2 / 10 else score)
      in clamp01 score)"

definition analyzeTemplate :: "string \<Rightarrow> TemplateMetadata option \<Rightarrow> TemplateAnalysis" where
  "analyzeTemplate content metadata =
     (let st = \<lparr>hasRole = str_includes (toLowerCase content) ''role:'',
                hasContext = str_includes (toLowerCase content) ''context:'',
                hasTask = str_includes (toLowerCase content) ''task:'',
                hasResponseFormat = (str_includes (toLowerCase content) ''format:''
                                     \<or> str_includes (toLowerCase content) ''output:'')\<rparr>;
          q = \<lparr>clarity = calculateClarity content,
               conciseness = calculateConciseness content,
               consistency = calculateConsistency content\<rparr>;
          sg = push_if (\<not> hasRole st)
                 (''Add a clear role definition using '' @ dquote @ ''ROLE:'' @ dquote @ '' section'') [];
          sg = push_if (\<not> hasContext st)
                 (''Include context information using '' @ dquote @ ''CONTEXT:'' @ dquote @ '' section'') sg;
          sg = push_if (\<not> hasTask st)
                 (''Specify the task using '' @ dquote @ ''TASK:'' @ dquote @ '' section'') sg;
          sg = push_if (\<not> hasResponseFormat st)
                 (''Define expected response format using '' @ dquote @ ''FORMAT:'' @ dquote
                  @ '' or '' @ dquote @ ''OUTPUT:'' @ dquote @ '' section'') sg;
          variables = match_global doubleBrace ''g'' content;
          sg = push_if (variables = [])
                 ''Consider using template variables (e.g., {{variableName}}) for dynamic content'' sg;
          sg = push_if (case metadata of None \<Rightarrow> False | Some m \<Rightarrow> meta_type m = Some ''conversation'')
                 ''For conversation templates, consider adding turn-taking markers or conversation flow indicators'' sg
      in \<lparr>structure = st, quality = q, suggestions = sg\<rparr>)"


section \<open>Content analyzer (analyzers/content.ts)\<close>

record 'd AnalysisResult =
  score :: int
  issues :: "string list"
  result_suggestions :: "string list"
  details :: 'd

record ContentDetails =
  avgWordsPerSentence :: rat
  complexWordCount :: nat

definition vagueTerms :: "string list" where
  "vagueTerms = [''etc'', ''and so on'', ''things'', ''stuff'']"

definition vague_step :: "string \<Rightarrow> string \<Rightarrow> string list \<times> string list \<Rightarrow> string list \<times> string list" where
  "vague_step content term acc =
     (if str_includes (toLowerCase content) term
      then (fst acc @ [''Contains vague term: '' @ dquote @ term @ dquote],
            snd acc @ [''Be more specific and explicit''])
      else acc)"

definition analyzeContent :: "string \<Rightarrow> ContentDetails AnalysisResult" where
  "analyzeContent content =
     (let acc = ([], []);
          acc = (if str_includes (toLowerCase content) ''you must''
                    \<or> str_includes (toLowerCase content) ''you should''
                 then (fst acc @ [''Tone is too prescriptive''],
                       snd acc @ [''Consider using more collaborative language''])
                 else acc);
          avg = rat_of_nat (fold (\<lambda>a b. a + b)
                    (map (\<lambda>s. length (split_regexp (Plus (Cls [CSpace])) [] (trim s)))
                       (split_regexp sentenceEnd [] content)) 0)
                / rat_of_nat (length (split_regexp sentenceEnd [] content));
          acc = (if avg > 25
                 then (fst acc @ [''Sentences are too long''],
                       snd acc @ [''Break down long sentences into smaller, clearer statements''])
                 else acc);
          complexWords = match_global (seqs [WordB, Rep 15 None True (Cls [CWord]), WordB]) ''g'' content;
          acc = (if complexWords \<noteq> [] \<and> length complexWords > 0
                 then (fst acc @ [''Contains complex or technical jargon''],
                       snd acc @ [''Consider using simpler, more accessible language''])
                 else acc);
          acc = fold (vague_step content) vagueTerms acc
      in \<lparr>score = max 0 (100 - int (length (fst acc)) * 10),
          issues = fst acc,
          result_suggestions = snd acc,
          details = \<lparr>avgWordsPerSentence = avg, complexWordCount = length complexWords\<rparr>\<rparr>)"

section \<open>Pattern analyzer (analyzers/patterns.ts)\<close>

record PatternRule =
  pattern :: regex
  flags :: string
  source :: string
  pattern_severity :: severity
  pattern_message :: string

record PatternMatch =
  match_pattern :: string
  line :: nat
  column :: int
  match_severity :: severity
  match_message :: string

definition ANTI_PATTERNS :: "PatternRule list" where
  "ANTI_PATTERNS =
     [\<lparr>pattern = seqs [str ''{{'', LazyStar Dot, str ''}}''], flags = ''g'',
       source = ''/'' @ backslash @ ''{'' @ backslash @ ''{.*?'' @ backslash @ ''}'' @ backslash @ ''}/g'',
       pattern_severity = Error,
       pattern_message = ''Mustache-style templating syntax detected - use proper TypeScript string interpolation''\<rparr>,
      \<lparr>pattern = seqs [str ''${'', Plus (NCls [CChar CHR ''}'']), Lit CHR ''}''], flags = ''g'',
       source = ''/'' @ backslash @ ''$'' @ backslash @ ''{[^}]+'' @ backslash @ ''}/g'',
       pattern_severity = Warning,
       pattern_message = ''String interpolation should be used sparingly in templates''\<rparr>,
      \<lparr>pattern = seqs [WordB, Grp 1 (Alt (str ''var'') (str ''let'')), WordB], flags = ''g'',
       source = ''/'' @ backslash @ ''b(var|let)'' @ backslash @ ''b/g'',
       pattern_severity = Warning,
       pattern_message = ''Prefer const for template variables unless reassignment is necessary''\<rparr>,
      \<lparr>pattern = seqs [WordB, Grp 1 (str ''any''), WordB], flags = ''g'',
       source = ''/'' @ backslash @ ''b(any)'' @ backslash @ ''b/g'',
       pattern_severity = Error,
       pattern_message = ''Avoid using '' @ dquote @ ''any'' @ dquote
                         @ '' type - specify proper types for template variables''\<rparr>,
      \<lparr>pattern = seqs [WordB, str ''console'', Lit CHR ''.'',
                        Grp 1 (alts [str ''log'', str ''warn'', str ''error'']), WordB],
       flags = ''g'',
       source = ''/'' @ backslash @ ''bconsole'' @ backslash @ ''.(log|warn|error)'' @ backslash @ ''b/g'',
       pattern_severity = Warning,
       pattern_message = ''Remove debug console statements from template''\<rparr>]"

definition FORMATTING_PATTERNS :: "PatternRule list" where
  "FORMATTING_PATTERNS =
     [\<lparr>pattern = seqs [Bol, Star (Cls [CSpace]), Lit CHR 0x0A, Star (Cls [CSpace]), Lit CHR 0x0A,
                        Star (Cls [CSpace]), Lit CHR 0x0A],
       flags = ''gm'',
       source = ''/^'' @ backslash @ ''s*'' @ backslash @ ''n'' @ backslash @ ''s*'' @ backslash @ ''n''
                @ backslash @ ''s*'' @ backslash @ ''n/gm'',
       pattern_severity = Warning,
       pattern_message = ''Multiple consecutive blank lines detected''\<rparr>,
      \<lparr>pattern = Lit CHR 0x09, flags = ''g'',
       source = ''/'' @ backslash @ ''t/g'',
       pattern_severity = Warning,
       pattern_message = ''Use spaces for indentation instead of tabs''\<rparr>,
      \<lparr>pattern = seqs [Plus (Cls [CSpace]), Eol], flags = ''gm'',
       source = ''/'' @ backslash @ ''s+$/gm'',
       pattern_severity = Info,
       pattern_message = ''Trailing whitespace detected''\<rparr>,
      \<lparr>pattern = seqs [NCls [CChar CHR 0x0A], Opt (Lit CHR 0x0A), Eol], flags = [],
       source = ''/[^'' @ backslash @ ''n]'' @ backslash @ ''n?$/'',
       pattern_severity = Info,
       pattern_message = ''File should end with a newline''\<rparr>]"

text \<open>\<^verbatim>\<open>RegExp.prototype.exec\<close>: the pattern object holds \<^verbatim>\<open>lastIndex\<close>. A global pattern
  searches from \<^verbatim>\<open>lastIndex\<close> and moves it to the end of the match, or back to 0 when
  nothing matches; a pattern without the flag g searches from 0 and leaves
  \<^verbatim>\<open>lastIndex\<close> alone. The result is the match (index, text, groups) and the new
  \<^verbatim>\<open>lastIndex\<close>.\<close>

definition regexp_exec :: "regex \<Rightarrow> string \<Rightarrow> string \<Rightarrow> nat \<Rightarrow> (nat \<times> string \<times> groups) option \<times> nat" where
  "regexp_exec re fl s lastIndex =
     (if has_flag CHR ''g'' fl then
        (if lastIndex > length s then (None, 0)
         else case search re (has_flag CHR ''i'' fl) (has_flag CHR ''m'' fl)
                     (rev (take lastIndex s)) (drop lastIndex s) of
                None \<Rightarrow> (None, 0)
              | Some (b, t, g) \<Rightarrow> (Some (length b, t, g), length b + length t))
      else (map_option (\<lambda>(b, t, g). (length b, t, g))
              (search re (has_flag CHR ''i'' fl) (has_flag CHR ''m'' fl) [] s), lastIndex))"

text \<open>\<^verbatim>\<open>content.lastIndexOf('\n', index)\<close>: the last line feed at or before the index,
  or -1.\<close>

definition lastIndexOf_newline :: "string \<Rightarrow> nat \<Rightarrow> int" where
  "lastIndexOf_newline content index =
     (case filter (\<lambda>i. content ! i = CHR 0x0A) (rev [0 ..< min (Suc index) (length content)]) of
        [] \<Rightarrow> -1
      | i # _ \<Rightarrow> int i)"

definition severity_name :: "severity \<Rightarrow> string" where
  "severity_name s = (case s of Error \<Rightarrow> ''error'' | Warning \<Rightarrow> ''warning'' | Info \<Rightarrow> ''info'')"

type_synonym findings = "PatternMatch list \<times> string list \<times> string list"

definition record_match :: "PatternRule \<Rightarrow> string \<Rightarrow> string \<Rightarrow> nat \<Rightarrow> findings \<Rightarrow> findings" where
  "record_match p label content index acc =
     (case acc of (ms, iss, sgs) \<Rightarrow>
        (ms @ [\<lparr>match_pattern = source p,
                 line = length (splitLines (take index content)),
                 column = int index - lastIndexOf_newline content index,
                 match_severity = pattern_severity p,
                 match_message = pattern_message p\<rparr>],
         if pattern_message p \<in> set iss then iss else iss @ [pattern_message p],
         if pattern_message p \<in> set iss then sgs
         else sgs @ [''Fix '' @ label @ '': '' @ pattern_message p]))"

text \<open>The loop \<^verbatim>\<open>while ((match = pattern.pattern.exec(content)) !== null)\<close>. It need
  not end, so it is a partial function: \<open>None\<close> is a loop that never leaves.\<close>

partial_function (option) exec_loop :: "PatternRule \<Rightarrow> string \<Rightarrow> string \<Rightarrow> nat \<Rightarrow> findings \<Rightarrow> findings option" where
  "exec_loop p label content lastIndex acc =
     (case regexp_exec (pattern p) (flags p) content lastIndex of
        (None, lastIndex') \<Rightarrow> Some acc
      | (Some (index, t, g), lastIndex') \<Rightarrow>
          exec_loop p label content lastIndex' (record_match p label content index acc))"

declare exec_loop.simps [code]

fun check_patterns :: "PatternRule list \<Rightarrow> (PatternRule \<Rightarrow> string) \<Rightarrow> string \<Rightarrow> findings \<Rightarrow> findings option" where
  "check_patterns [] label content acc = Some acc"
| "check_patterns (p # ps) label content acc =
     (case exec_loop p (label p) content 0 acc of
        None \<Rightarrow> None
      | Some acc' \<Rightarrow> check_patterns ps label content acc')"

definition count_severity :: "severity \<Rightarrow> PatternMatch list \<Rightarrow> int" where
  "count_severity s ms = int (length (filter (\<lambda>m. match_severity m = s) ms))"

definition analyzePatterns :: "string \<Rightarrow> (PatternMatch list) AnalysisResult option" where
  "analyzePatterns content =
     (case check_patterns ANTI_PATTERNS (\<lambda>p. severity_name (pattern_severity p)) content ([], [], []) of
        None \<Rightarrow> None
      | Some acc \<Rightarrow>
          (case check_patterns FORMATTING_PATTERNS (\<lambda>p. ''formatting'') content acc of
             None \<Rightarrow> None
           | Some (ms, iss, sgs) \<Rightarrow>
               Some \<lparr>score = max 0 (100 - count_severity Error ms * 15
                                       - count_severity Warning ms * 5
                                       - count_severity Info ms * 2),
                     issues = iss,
                     result_suggestions = sgs,
                     details = ms\<rparr>))"

section \<open>The analyze operation (index.ts, command analyze_template)\<close>

record Analysis =
  structureAnalysis :: TemplateAnalysis
  contentAnalysis :: "ContentDetails AnalysisResult"
  patternAnalysis :: "(PatternMatch list) AnalysisResult"

definition analyze :: "string \<Rightarrow> Analysis option" where
  "analyze input =
     (let sa = analyzeTemplate input None;
          ca = analyzeContent input
      in case analyzePatterns input of
           None \<Rightarrow> None
         | Some pa \<Rightarrow>
             Some \<lparr>structureAnalysis = sa, contentAnalysis = ca, patternAnalysis = pa\<rparr>)"


section \<open>Template enhancer (enhancers/optimizer.ts)\<close>

record EnhancementResult =
  enhancedContent :: string
  changes :: "string list"
  originalContent :: string

record Sections =
  sec_role :: bool
  sec_context :: bool
  sec_task :: bool
  sec_format :: bool

text \<open>The only operation of the enhancer that can throw: \<^verbatim>\<open>inferRole(lines[0])\<close> calls
  \<^verbatim>\<open>toLowerCase\<close> on \<^verbatim>\<open>undefined\<close> when \<^verbatim>\<open>lines\<close> is empty.\<close>

datatype error = TypeError

definition identifySections :: "string \<Rightarrow> Sections" where
  "identifySections content =
     \<lparr>sec_role = regexp_test (seqs [Bol, str ''ROLE:'']) ''im'' content,
      sec_context = regexp_test (seqs [Bol, str ''CONTEXT:'']) ''im'' content,
      sec_task = regexp_test (seqs [Bol, str ''TASK:'']) ''im'' content,
      sec_format = regexp_test
        (seqs [Bol, Grp 1 (Alt (str ''FORMAT'') (str ''OUTPUT'')), Lit CHR '':'']) ''im'' content\<rparr>"

definition inferRole :: "string \<Rightarrow> string" where
  "inferRole content =
     (let t = toLowerCase content in
      if str_includes t ''review'' \<or> str_includes t ''analyze''
        then ''reviewing and analyzing content''
      else if str_includes t ''create'' \<or> str_includes t ''generate''
        then ''creating and generating content''
      else if str_includes t ''improve'' \<or> str_includes t ''enhance''
        then ''improving and enhancing content''
      else if str_includes t ''explain'' \<or> str_includes t ''teach''
        then ''explaining concepts and teaching''
      else ''assisting with the specified task'')"

definition insertAfterSection :: "string \<Rightarrow> string \<Rightarrow> string \<Rightarrow> string" where
  "insertAfterSection content section insertion =
     (let regex = Grp 1 (seqs [Bol, str section, LazyStar Dot, Lit CHR 0x0A]) in
      case match_first regex ''m'' content of
        Some m \<Rightarrow> replace_first regex ''m'' (\<lambda>(t, g). group 1 g @ ''\<newline>'' @ insertion) content
      | None \<Rightarrow> content)"

definition addMissingSections :: "string \<Rightarrow> Sections \<Rightarrow> string list \<Rightarrow> error + string \<times> string list" where
  "addMissingSections content sections chs =
     (if \<not> sec_role sections \<and> \<not> sec_context sections \<and> \<not> sec_task sections \<and> \<not> sec_format sections then
        (let lines = splitLines (trim content) in
         case lines of
           [] \<Rightarrow> Inl TypeError
         | first # _ \<Rightarrow>
             Inr (''ROLE: You are an AI assistant tasked with '' @ inferRole first @ ''\<newline>\<newline>''
                  @ ''CONTEXT: '' @ join '' '' (take (min 3 (length lines)) lines) @ ''\<newline>\<newline>''
                  @ ''TASK: '' @ join '' '' (drop (min 3 (length lines)) lines) @ ''\<newline>\<newline>''
                  @ ''FORMAT: Provide your response in a clear, structured manner.'',
                  chs @ [''Added basic template structure (ROLE, CONTEXT, TASK, FORMAT sections)'']))
      else
        (let st = (content, chs);
             st = (if \<not> sec_role sections
                   then (''ROLE: You are an AI assistant tasked with '' @ inferRole content
                           @ ''\<newline>\<newline>'' @ fst st,
                         snd st @ [''Added missing ROLE section''])
                   else st);
             st = (if \<not> sec_context sections
                   then (insertAfterSection (fst st) ''ROLE:''
                           ''CONTEXT: Working with the following information and requirements.\<newline>\<newline>'',
                         snd st @ [''Added missing CONTEXT section''])
                   else st);
             st = (if \<not> sec_task sections
                   then (trim (fst st) @ ''\<newline>\<newline>TASK: Complete the following objectives.\<newline>'',
                         snd st @ [''Added missing TASK section''])
                   else st);
             st = (if \<not> sec_format sections
                   then (trim (fst st)
                           @ ''\<newline>\<newline>FORMAT: Provide your response in a clear, structured manner.\<newline>'',
                         snd st @ [''Added missing FORMAT section''])
                   else st)
         in Inr st))"

definition variablePattern :: regex where
  "variablePattern =
     alts [doubleBrace,
           seqs [Lit CHR ''['', wordOrHyphen, Lit CHR '']''],
           seqs [Lit CHR ''$'', Lit CHR ''{'', wordOrHyphen, Lit CHR ''}'']]"

text \<open>The arrow of the change log is U+2192, which has no 8-bit code unit; the log
  carries its three UTF-8 bytes instead.\<close>

definition arrow :: string where
  "arrow = [CHR 0xE2, CHR 0x86, CHR 0x92]"

definition normalize_step :: "string \<Rightarrow> string \<times> (string \<times> string) list \<Rightarrow> string \<times> (string \<times> string) list" where
  "normalize_step variable st =
     (let cleanName =
            replace_global (Plus (Cls [CSpace])) ''g'' (\<lambda>m. ''_'')
              (trim (replace_global
                 (Cls [CChar CHR ''{'', CChar CHR ''}'', CChar CHR ''['', CChar CHR '']'', CChar CHR ''$''])
                 ''g'' (\<lambda>m. []) variable));
          normalizedVar = ''{{'' @ cleanName @ ''}}''
      in if variable \<noteq> normalizedVar
         then (replace_substring (fst st) variable normalizedVar,
               AList.update variable normalizedVar (snd st))
         else st)"

definition formatTemplateVariables :: "string \<Rightarrow> string list \<Rightarrow> string \<times> string list" where
  "formatTemplateVariables content chs =
     (let variables = match_global variablePattern ''g'' content in
      if length variables = 0 then (content, chs)
      else
        (let st = fold normalize_step variables (content, []) in
         (fst st,
          push_if (length (snd st) > 0)
            (''Normalized variable format to {{variableName}} style: ''
             @ join '', '' (map (\<lambda>(from, to). from @ '' '' @ arrow @ '' '' @ to) (snd st)))
            chs)))"

text \<open>The bullet class of this file is hyphen, asterisk and U+2022; the last has no
  8-bit code unit and cannot occur in a text of this model.\<close>

definition bulletGlyphs :: "citem list" where
  "bulletGlyphs = [CChar CHR ''-'', CChar CHR ''*'']"

definition improveFormatting :: "string \<Rightarrow> string list \<Rightarrow> string \<times> string list" where
  "improveFormatting content chs =
     (let enhanced = replace_global
            (seqs [Bol, Grp 1 (alts [str ''role'', str ''context'', str ''task'', str ''format'',
                                     str ''output'']), Lit CHR '':''])
            ''gim'' (\<lambda>(t, g). toUpperCase t) content;
          enhanced = replace_global
            (seqs [Grp 1 (NCls [CChar CHR 0x0A]), Lit CHR 0x0A, Grp 2 sectionLabels, Lit CHR '':''])
            ''g'' (\<lambda>(t, g). group 1 g @ ''\<newline>\<newline>'' @ group 2 g @ '':'') enhanced;
          hasBullets = regexp_test (seqs [Bol, Cls bulletGlyphs]) ''m'' enhanced;
          st = (if hasBullets
                then (replace_global (seqs [Bol, Cls bulletGlyphs, Star (Cls [CSpace])]) ''gm''
                        (\<lambda>m. ''- '') enhanced,
                      chs @ [''Standardized bullet point format to '' @ dquote @ ''-'' @ dquote])
                else (enhanced, chs));
          trimmed = replace_global (seqs [Plus (Cls [CChar CHR '' '', CChar CHR 0x09]), Eol]) ''gm''
                      (\<lambda>m. []) (fst st)
      in if trimmed \<noteq> fst st then (trimmed, snd st @ [''Removed trailing whitespace'']) else st)"

definition redundancy_step :: "string \<Rightarrow> string list \<times> string list \<times> string list \<Rightarrow> string list \<times> string list \<times> string list" where
  "redundancy_step l st =
     (case st of (filtered, uniqueLines, duplicates) \<Rightarrow>
        (let normalized = toLowerCase (trim l) in
         if normalized = []
            \<or> match_first (seqs [Bol, Grp 1 sectionLabels, Lit CHR '':'']) ''i'' normalized \<noteq> None
           then (filtered @ [l], uniqueLines, duplicates)
         else if normalized \<in> set uniqueLines
           then (filtered, uniqueLines, List.insert normalized duplicates)
         else (filtered @ [l], normalized # uniqueLines, duplicates)))"

definition removeRedundancies :: "string \<Rightarrow> string list \<Rightarrow> string \<times> string list" where
  "removeRedundancies content chs =
     (case fold redundancy_step (splitLines content) ([], [], []) of
        (filtered, uniqueLines, duplicates) \<Rightarrow>
          if length duplicates > 0
          then (join ''\<newline>'' filtered,
                chs @ [''Removed '' @ number_to_string (length duplicates) @ '' duplicate instruction(s)''])
          else (content, chs))"

definition enhanceTemplate :: "string \<Rightarrow> error + EnhancementResult" where
  "enhanceTemplate input =
     (let sections = identifySections input in
      case addMissingSections input sections [] of
        Inl e \<Rightarrow> Inl e
      | Inr (enhanced, chs) \<Rightarrow>
          (case formatTemplateVariables enhanced chs of (enhanced, chs) \<Rightarrow>
           case improveFormatting enhanced chs of (enhanced, chs) \<Rightarrow>
           case removeRedundancies enhanced chs of (enhanced, chs) \<Rightarrow>
             Inr \<lparr>enhancedContent = enhanced, changes = chs, originalContent = input\<rparr>))"


section \<open>The specification's own notions\<close>

text \<open>A section is present, in the specification's words, when a line begins with its
  label followed by a colon, case-insensitively. The label is given in lower case.\<close>

definition spec_section_present :: "string \<Rightarrow> string \<Rightarrow> bool" where
  "spec_section_present label content =
     list_ex (\<lambda>l. startsWith (toLowerCase l) (label @ '':'')) (splitLines content)"

text \<open>A term occurs as a whole word, case-insensitively: the text is \<open>pre @ w @ post\<close>
  where \<open>w\<close> is the term up to letter case and the characters next to \<open>w\<close>, if
  any, are not word characters.\<close>

definition spec_whole_word :: "string \<Rightarrow> string \<Rightarrow> bool" where
  "spec_whole_word term content =
     (\<exists>pre w post. content = pre @ w @ post
        \<and> map canonicalize w = map canonicalize term
        \<and> (pre = [] \<or> \<not> isWordChar (last pre))
        \<and> (post = [] \<or> \<not> isWordChar (hd post)))"


section \<open>Templates used below\<close>

definition normal_form_template :: string where
  "normal_form_template =
     ''Prompt\<newline>\<newline>ROLE: a\<newline>\<newline>CONTEXT: b\<newline>\<newline>TASK: Greet {{name}}\<newline>- d\<newline>\<newline>FORMAT: e''"

definition summarize_enhanced :: EnhancementResult where
  "summarize_enhanced =
     \<lparr>enhancedContent =
        ''ROLE: You are an AI assistant tasked with assisting with the specified task\<newline>\<newline>CONTEXT: Please summarize this document.\<newline>\<newline>TASK:\<newline>\<newline>FORMAT: Provide your response in a clear, structured manner.'',
      changes = [''Added basic template structure (ROLE, CONTEXT, TASK, FORMAT sections)'',
                 ''Removed trailing whitespace''],
      originalContent = ''Please summarize this document.''\<rparr>"

section \<open>Properties\<close>

subsection \<open>The character primitives and code unit arithmetic\<close>

lemma bits_value_bound: "bits_value xs < 2 ^ length xs"
  by (induction xs) (auto simp: of_bool_def)

lemma lex_le_iff:
  "length xs = length ys \<Longrightarrow> lex_le xs ys \<longleftrightarrow> bits_value xs \<le> bits_value ys"
proof (induction xs arbitrary: ys)
  case Nil
  then show ?case by simp
next
  case (Cons x xs)
  then obtain y zs where ys: "ys = y # zs" and len: "length xs = length zs"
    by (cases ys) auto
  from bits_value_bound[of xs] bits_value_bound[of zs] len Cons.IH[OF len] show ?case
    by (cases x; cases y) (auto simp: ys)
qed

lemma of_char_bits: "of_char c = bits_value (bits c)"
  by (cases c) (simp add: of_bool_def)

lemma char_le_iff: "char_le a b \<longleftrightarrow> (of_char a :: nat) \<le> of_char b"
proof -
  have "length (bits a) = length (bits b)"
    by (cases a; cases b) simp
  then show ?thesis
    by (simp add: char_le_def lex_le_iff of_char_bits)
qed

lemma lowerChar_code_unit:
  "(of_char (lowerChar c) :: nat) =
     (if (65 \<le> (of_char c :: nat) \<and> (of_char c :: nat) \<le> 90)
         \<or> (192 \<le> (of_char c :: nat) \<and> (of_char c :: nat) \<le> 222 \<and> (of_char c :: nat) \<noteq> 215)
      then of_char c + 32 else of_char c)"
proof (cases c)
  case (Char x1 x2 x3 x4 x5 x6 x7 x8)
  show ?thesis
    unfolding Char
    by (cases x1; cases x2; cases x3; cases x4; cases x5; cases x6; cases x7; cases x8;
        simp add: lowerChar_def in_range_def char_le_def)
qed

lemma canonicalize_code_unit:
  "(of_char (canonicalize c) :: nat) =
     (if (97 \<le> (of_char c :: nat) \<and> (of_char c :: nat) \<le> 122)
         \<or> (224 \<le> (of_char c :: nat) \<and> (of_char c :: nat) \<le> 254 \<and> (of_char c :: nat) \<noteq> 247)
      then of_char c - 32 else of_char c)"
proof (cases c)
  case (Char x1 x2 x3 x4 x5 x6 x7 x8)
  show ?thesis
    unfolding Char
    by (cases x1; cases x2; cases x3; cases x4; cases x5; cases x6; cases x7; cases x8;
        simp add: canonicalize_def in_range_def char_le_def)
qed

lemma isWordChar_code_unit:
  "isWordChar c \<longleftrightarrow>
     (48 \<le> (of_char c :: nat) \<and> (of_char c :: nat) \<le> 57)
     \<or> (65 \<le> (of_char c :: nat) \<and> (of_char c :: nat) \<le> 90)
     \<or> (of_char c :: nat) = 95
     \<or> (97 \<le> (of_char c :: nat) \<and> (of_char c :: nat) \<le> 122)"
proof (cases c)
  case (Char x1 x2 x3 x4 x5 x6 x7 x8)
  show ?thesis
    unfolding Char
    by (cases x1; cases x2; cases x3; cases x4; cases x5; cases x6; cases x7; cases x8;
        simp add: isWordChar_def in_range_def char_le_def)
qed

lemma isWhiteSpace_code_unit:
  "isWhiteSpace c \<longleftrightarrow>
     (9 \<le> (of_char c :: nat) \<and> (of_char c :: nat) \<le> 13)
     \<or> (of_char c :: nat) = 32 \<or> (of_char c :: nat) = 160"
proof (cases c)
  case (Char x1 x2 x3 x4 x5 x6 x7 x8)
  show ?thesis
    unfolding Char
    by (cases x1; cases x2; cases x3; cases x4; cases x5; cases x6; cases x7; cases x8;
        simp add: isWhiteSpace_def in_range_def char_le_def)
qed

subsection \<open>The enhancer and the validator always return\<close>

lemma splitOn_not_Nil: "splitOn sep piece s \<noteq> []"
  by (induction s arbitrary: piece) simp_all

lemma addMissingSections_returns: "\<exists>r. addMissingSections c secs chs = Inr r"
proof (cases "splitLines (trim c)")
  case Nil
  then show ?thesis by (simp add: splitLines_def splitOn_not_Nil)
next
  case (Cons l ls)
  then show ?thesis by (simp add: addMissingSections_def Let_def)
qed

lemma enhanceTemplate_returns: "\<exists>r. enhanceTemplate c = Inr r"
proof -
  obtain e chs where "addMissingSections c (identifySections c) [] = Inr (e, chs)"
    using addMissingSections_returns by (metis surj_pair)
  then show ?thesis
    by (simp add: enhanceTemplate_def Let_def split: prod.splits)
qed

text \<open>C1: for every text, the verdict of the validator is true exactly when its list of
  violations is empty.\<close>

theorem validate_isValid_iff_no_violations:
  "isValid (validateTemplate t) = (length (violations (validateTemplate t)) = 0)"
  by (simp add: validateTemplate_def Let_def)

text \<open>C10: for every text, the enhancer returns a result whose originalContent is the
  input itself, whatever the passes did to the content.\<close>

theorem enhance_keeps_originalContent:
  "\<exists>r. enhanceTemplate t = Inr r \<and> originalContent r = t"
proof -
  obtain e chs where "addMissingSections t (identifySections t) [] = Inr (e, chs)"
    using addMissingSections_returns by (metis surj_pair)
  then show ?thesis
    by (simp add: enhanceTemplate_def Let_def split: prod.splits)
qed

text \<open>C2: a text with a double-brace token and a bracket token should give one
  variable-format error. The second pattern of \<open>variableFormats\<close> asks for a word
  character, a hyphen and at least two closing brackets after the opening one; it does
  not match \<^verbatim>\<open>[b]\<close>, so only one syntax is counted and no such error is reported.\<close>

theorem mixed_syntax_not_detected:
  "map (\<lambda>format. length (match_global format ''g'' ''{{a}} [b]'')) variableFormats = [1, 0, 0]
   \<and> filter (\<lambda>v. rule v = ''variable-format'') (violations (validateTemplate ''{{a}} [b]'')) = []"
  by code_simp

text \<open>C4: clarity should lose 0.1 for each parenthesized group that contains another
  one, and nothing for a flat group. The count taken by \<open>calculateClarity\<close> is of the
  flat groups: a text with three of them, no nesting, one short sentence and no section
  marker has clarity 0.7, not 1.\<close>

theorem clarity_flat_groups:
  "\<not> regexp_test nestedParens [] ''Summarize (briefly) the text (in English) for me (today)''
   \<and> calculateClarity ''Summarize (briefly) the text (in English) for me (today)'' = 7 / 10"
  by code_simp


subsection \<open>A loop that never leaves\<close>

lemma exec_loop_never_leaves:
  assumes ng: "\<not> has_flag CHR ''g'' (flags p)"
    and m: "search (pattern p) (has_flag CHR ''i'' (flags p)) (has_flag CHR ''m'' (flags p)) [] s \<noteq> None"
  shows "exec_loop p label s li acc = None"
proof (rule ccontr)
  assume "exec_loop p label s li acc \<noteq> None"
  then obtain y where y: "exec_loop p label s li acc = Some y"
    by auto
  have "\<not> (\<not> has_flag CHR ''g'' (flags p)
      \<and> search (pattern p) (has_flag CHR ''i'' (flags p)) (has_flag CHR ''m'' (flags p)) [] s \<noteq> None)"
  proof (rule exec_loop.raw_induct[where
        P = "\<lambda>p label content li acc y. \<not> (\<not> has_flag CHR ''g'' (flags p)
          \<and> search (pattern p) (has_flag CHR ''i'' (flags p)) (has_flag CHR ''m'' (flags p)) [] content \<noteq> None)"
        and p = p and label = label and content = s and lastIndex = li and acc = acc and y = y])
    show "exec_loop p label s li acc = Some y"
      by (rule y)
  next
    fix f :: "PatternRule \<Rightarrow> string \<Rightarrow> string \<Rightarrow> nat \<Rightarrow> findings \<Rightarrow> findings option"
    fix q lb content k a z
    assume IH: "\<And>q lb content k a z. f q lb content k a = Some z \<Longrightarrow>
        \<not> (\<not> has_flag CHR ''g'' (flags q)
          \<and> search (pattern q) (has_flag CHR ''i'' (flags q)) (has_flag CHR ''m'' (flags q)) [] content \<noteq> None)"
      and body: "(case regexp_exec (pattern q) (flags q) content k of
          (None, lastIndex') \<Rightarrow> Some a
        | (Some (index, t, g), lastIndex') \<Rightarrow> f q lb content lastIndex' (record_match q lb content index a))
        = Some z"
    show "\<not> (\<not> has_flag CHR ''g'' (flags q)
          \<and> search (pattern q) (has_flag CHR ''i'' (flags q)) (has_flag CHR ''m'' (flags q)) [] content \<noteq> None)"
    proof
      assume c: "\<not> has_flag CHR ''g'' (flags q)
          \<and> search (pattern q) (has_flag CHR ''i'' (flags q)) (has_flag CHR ''m'' (flags q)) [] content \<noteq> None"
      then obtain b t g where
        "search (pattern q) (has_flag CHR ''i'' (flags q)) (has_flag CHR ''m'' (flags q)) [] content = Some (b, t, g)"
        by (metis not_None_eq surj_pair)
      with c have "regexp_exec (pattern q) (flags q) content k = (Some (length b, t, g), k)"
        by (simp add: regexp_exec_def)
      with body have "f q lb content k (record_match q lb content (length b) a) = Some z"
        by simp
      from IH[OF this] c show False
        by blast
    qed
  qed
  with ng m show False
    by simp
qed

lemma check_patterns_never_leaves:
  assumes "p \<in> set ps" "\<not> has_flag CHR ''g'' (flags p)"
    and "search (pattern p) (has_flag CHR ''i'' (flags p)) (has_flag CHR ''m'' (flags p)) [] s \<noteq> None"
  shows "check_patterns ps label s acc = None"
  using assms(1)
proof (induction ps arbitrary: acc)
  case Nil
  then show ?case by simp
next
  case (Cons q qs)
  show ?case
  proof (cases "q = p")
    case True
    then show ?thesis
      using exec_loop_never_leaves[OF assms(2,3)] by simp
  next
    case False
    with Cons.prems have "p \<in> set qs" by simp
    then show ?thesis
      using Cons.IH by (simp split: option.splits)
  qed
qed

lemma analyzePatterns_never_returns:
  assumes "regexp_test (seqs [NCls [CChar (CHR 0x0A)], Opt (Lit (CHR 0x0A)), Eol]) [] s"
  shows "analyzePatterns s = None"
proof -
  let ?p = "\<lparr>pattern = seqs [NCls [CChar (CHR 0x0A)], Opt (Lit (CHR 0x0A)), Eol], flags = [],
       source = ''/[^'' @ backslash @ ''n]'' @ backslash @ ''n?$/'',
       pattern_severity = Info,
       pattern_message = ''File should end with a newline''\<rparr>"
  have in_set: "?p \<in> set FORMATTING_PATTERNS"
    by (simp add: FORMATTING_PATTERNS_def)
  have ng: "\<not> has_flag CHR ''g'' (flags ?p)"
    by (simp add: has_flag_def)
  have m: "search (pattern ?p) (has_flag CHR ''i'' (flags ?p)) (has_flag CHR ''m'' (flags ?p)) [] s \<noteq> None"
    using assms by (simp add: regexp_test_def)
  have "check_patterns FORMATTING_PATTERNS label s acc = None" for label acc
    by (rule check_patterns_never_leaves[OF in_set ng m])
  then show ?thesis
    by (simp add: analyzePatterns_def split: option.splits)
qed

text \<open>C5: analyze, validate and enhance return a value for every text. The validator and
  the enhancer do (\<open>enhanceTemplate_returns\<close>; \<open>validateTemplate\<close> has no failing
  step), but the pattern analysis run by analyze loops over the matches of a pattern
  that lacks the flag g, and on the text \<^verbatim>\<open>a\<close> that loop never leaves: analyze returns
  nothing.\<close>

theorem analyze_never_returns_on_a:
  "analyze ''a'' = None"
proof -
  have "regexp_test (seqs [NCls [CChar (CHR 0x0A)], Opt (Lit (CHR 0x0A)), Eol]) [] ''a''"
    by code_simp
  then have "analyzePatterns ''a'' = None"
    by (rule analyzePatterns_never_returns)
  then show ?thesis
    by (simp add: analyze_def)
qed

subsection \<open>Substring search\<close>

lemma startsWith_iff: "startsWith s t \<longleftrightarrow> (\<exists>post. s = t @ post)"
  by (induction s t rule: startsWith.induct) auto

lemma str_includes_iff: "str_includes s t \<longleftrightarrow> (\<exists>pre post. s = pre @ t @ post)"
proof (induction s)
  case Nil
  then show ?case by auto
next
  case (Cons c cs)
  have "(\<exists>pre post. c # cs = pre @ t @ post)
      \<longleftrightarrow> (\<exists>post. c # cs = t @ post) \<or> (\<exists>pre post. cs = pre @ t @ post)"
  proof
    assume "\<exists>pre post. c # cs = pre @ t @ post"
    then obtain pre post where e: "c # cs = pre @ t @ post" by blast
    show "(\<exists>post. c # cs = t @ post) \<or> (\<exists>pre post. cs = pre @ t @ post)"
    proof (cases pre)
      case Nil
      with e show ?thesis by auto
    next
      case (Cons d ds)
      with e have "cs = ds @ t @ post" by simp
      then show ?thesis by blast
    qed
  next
    assume "(\<exists>post. c # cs = t @ post) \<or> (\<exists>pre post. cs = pre @ t @ post)"
    then show "\<exists>pre post. c # cs = pre @ t @ post"
    proof
      assume "\<exists>post. c # cs = t @ post"
      then obtain post where "c # cs = [] @ t @ post" by auto
      then show ?thesis by blast
    next
      assume "\<exists>pre post. cs = pre @ t @ post"
      then obtain pre post where "c # cs = (c # pre) @ t @ post" by auto
      then show ?thesis by blast
    qed
  qed
  with Cons show ?case
    by (simp add: startsWith_iff)
qed

lemma splitOn_line_occurs:
  "l \<in> set (splitOn sep piece s) \<Longrightarrow> \<exists>pre post. rev piece @ s = pre @ l @ post"
proof (induction s arbitrary: piece)
  case Nil
  then have "rev piece @ [] = [] @ l @ []" by simp
  then show ?case by blast
next
  case (Cons c cs)
  show ?case
  proof (cases "c = sep")
    case True
    with Cons.prems have "l = rev piece \<or> l \<in> set (splitOn sep [] cs)" by simp
    then show ?thesis
    proof
      assume "l = rev piece"
      then have "rev piece @ c # cs = [] @ l @ (c # cs)" by simp
      then show ?thesis by blast
    next
      assume "l \<in> set (splitOn sep [] cs)"
      from Cons.IH[OF this] obtain pre post where "cs = pre @ l @ post" by auto
      then have "rev piece @ c # cs = (rev piece @ c # pre) @ l @ post" by simp
      then show ?thesis by blast
    qed
  next
    case False
    with Cons.prems have "l \<in> set (splitOn sep (c # piece) cs)" by simp
    from Cons.IH[OF this] show ?thesis by simp
  qed
qed

lemma section_present_includes:
  assumes "spec_section_present label c"
  shows "str_includes (toLowerCase c) (label @ '':'')"
proof -
  from assms obtain l where l: "l \<in> set (splitLines c)"
    and s: "startsWith (toLowerCase l) (label @ '':'')"
    by (auto simp: spec_section_present_def list_ex_iff)
  from l obtain pre post where c: "c = pre @ l @ post"
    using splitOn_line_occurs[of l "CHR 0x0A" "[]" c] by (auto simp: splitLines_def)
  from s obtain rest where "toLowerCase l = (label @ '':'') @ rest"
    by (auto simp: startsWith_iff)
  with c have "toLowerCase c = toLowerCase pre @ (label @ '':'') @ (rest @ toLowerCase post)"
    by (simp add: toLowerCase_def)
  then show ?thesis
    unfolding str_includes_iff by blast
qed

text \<open>What \<open>analyzeTemplate\<close> computes: each structure flag is true exactly when the
  label followed by a colon occurs anywhere in the lower-cased text, at a line start or
  not.\<close>

lemma analyzeTemplate_flags_substring:
  "(hasRole (structure (analyzeTemplate c m)) \<longleftrightarrow> (\<exists>pre post. toLowerCase c = pre @ ''role:'' @ post))
   \<and> (hasContext (structure (analyzeTemplate c m)) \<longleftrightarrow> (\<exists>pre post. toLowerCase c = pre @ ''context:'' @ post))
   \<and> (hasTask (structure (analyzeTemplate c m)) \<longleftrightarrow> (\<exists>pre post. toLowerCase c = pre @ ''task:'' @ post))
   \<and> (hasResponseFormat (structure (analyzeTemplate c m)) \<longleftrightarrow>
        (\<exists>pre post. toLowerCase c = pre @ ''format:'' @ post)
        \<or> (\<exists>pre post. toLowerCase c = pre @ ''output:'' @ post))
   \<and> (spec_section_present ''role'' c \<longrightarrow> hasRole (structure (analyzeTemplate c m)))
   \<and> (spec_section_present ''context'' c \<longrightarrow> hasContext (structure (analyzeTemplate c m)))
   \<and> (spec_section_present ''task'' c \<longrightarrow> hasTask (structure (analyzeTemplate c m)))
   \<and> (spec_section_present ''format'' c \<or> spec_section_present ''output'' c
        \<longrightarrow> hasResponseFormat (structure (analyzeTemplate c m)))"
proof -
  have r: "hasRole (structure (analyzeTemplate c m)) = str_includes (toLowerCase c) ''role:''"
    by (simp add: analyzeTemplate_def Let_def)
  have x: "hasContext (structure (analyzeTemplate c m)) = str_includes (toLowerCase c) ''context:''"
    by (simp add: analyzeTemplate_def Let_def)
  have t: "hasTask (structure (analyzeTemplate c m)) = str_includes (toLowerCase c) ''task:''"
    by (simp add: analyzeTemplate_def Let_def)
  have f: "hasResponseFormat (structure (analyzeTemplate c m))
      = (str_includes (toLowerCase c) ''format:'' \<or> str_includes (toLowerCase c) ''output:'')"
    by (simp add: analyzeTemplate_def Let_def)
  have "spec_section_present ''role'' c \<longrightarrow> str_includes (toLowerCase c) ''role:''"
    and "spec_section_present ''context'' c \<longrightarrow> str_includes (toLowerCase c) ''context:''"
    and "spec_section_present ''task'' c \<longrightarrow> str_includes (toLowerCase c) ''task:''"
    and "spec_section_present ''format'' c \<longrightarrow> str_includes (toLowerCase c) ''format:''"
    and "spec_section_present ''output'' c \<longrightarrow> str_includes (toLowerCase c) ''output:''"
    using section_present_includes[of "''role''" c] section_present_includes[of "''context''" c]
      section_present_includes[of "''task''" c] section_present_includes[of "''format''" c]
      section_present_includes[of "''output''" c]
    by simp_all
  then show ?thesis
    unfolding r x t f str_includes_iff by blast
qed

text \<open>C3: the structure flags of analyze should be true exactly when a line begins with
  the label and a colon, as the validator and the section locator of the enhancer decide
  it. On a text whose only "role:" stands in the middle of a line, analyze returns with
  hasRole set, although no line begins with the label, the validator reports the ROLE
  section missing and the enhancer's locator finds none. The flag is computed before the
  pattern analysis, so it is the same on the text without the two final line feeds.\<close>

theorem analyze_flag_set_mid_line:
  "analyze ''my role: helper\<newline>\<newline>'' \<noteq> None
   \<and> hasRole (structure (structureAnalysis (the (analyze ''my role: helper\<newline>\<newline>''))))
   \<and> \<not> spec_section_present ''role'' ''my role: helper\<newline>\<newline>''
   \<and> \<not> sec_role (identifySections ''my role: helper\<newline>\<newline>'')
   \<and> ''Missing ROLE section''
       \<in> set (map message (violations (validateTemplate ''my role: helper\<newline>\<newline>'')))
   \<and> hasRole (structure (analyzeTemplate ''my role: helper'' None))
   \<and> \<not> spec_section_present ''role'' ''my role: helper''
   \<and> \<not> sec_role (identifySections ''my role: helper'')
   \<and> ''Missing ROLE section''
       \<in> set (map message (violations (validateTemplate ''my role: helper'')))"
  by code_simp

subsection \<open>Whole-word patterns\<close>

lemma isWordChar_canonicalize: "isWordChar (canonicalize c) = isWordChar c"
proof (cases c)
  case (Char x1 x2 x3 x4 x5 x6 x7 x8)
  show ?thesis
    unfolding Char
    by (cases x1; cases x2; cases x3; cases x4; cases x5; cases x6; cases x7; cases x8;
        simp add: isWordChar_def canonicalize_def in_range_def char_le_def)
qed

lemma ends_str:
  "ends ic ml (str t) (b, r, g) =
     (if length t \<le> length r \<and> list_all2 (char_matches ic) t (take (length t) r)
      then [(rev (take (length t) r) @ b, drop (length t) r, g)] else [])"
proof (induction t arbitrary: b r)
  case Nil
  then show ?case by (simp add: str_def)
next
  case (Cons a t)
  have s: "str (a # t) = Seq (Lit a) (str t)"
    by (simp add: str_def)
  show ?case
  proof (cases r)
    case Nil
    then show ?thesis by (simp add: s)
  next
    case (Cons x xs)
    then show ?thesis
      using Cons.IH[of "x # b" xs] by (simp add: s)
  qed
qed

lemma match_at_word:
  "match_at (seqs [WordB, str t, WordB]) ic ml b r \<noteq> None \<longleftrightarrow>
     at_wordb b r \<and> length t \<le> length r \<and> list_all2 (char_matches ic) t (take (length t) r)
     \<and> at_wordb (rev (take (length t) r) @ b) (drop (length t) r)"
  by (auto simp: match_at_def seqs_def ends_str dest: list_all2_lengthD)

lemma search_iff:
  "search re ic ml b r \<noteq> None \<longleftrightarrow> (\<exists>p q. r = p @ q \<and> match_at re ic ml (rev p @ b) q \<noteq> None)"
proof (induction r arbitrary: b)
  case Nil
  then show ?case by (auto split: option.splits)
next
  case (Cons c cs)
  show ?case
  proof (cases "match_at re ic ml b (c # cs)")
    case (Some m)
    then have "c # cs = [] @ (c # cs) \<and> match_at re ic ml (rev [] @ b) (c # cs) \<noteq> None"
      by simp
    then have "\<exists>p q. c # cs = p @ q \<and> match_at re ic ml (rev p @ b) q \<noteq> None"
      by blast
    with Some show ?thesis
      by (auto split: prod.splits)
  next
    case None
    have "(\<exists>p q. c # cs = p @ q \<and> match_at re ic ml (rev p @ b) q \<noteq> None)
        \<longleftrightarrow> (\<exists>p q. cs = p @ q \<and> match_at re ic ml (rev p @ c # b) q \<noteq> None)"
    proof
      assume "\<exists>p q. c # cs = p @ q \<and> match_at re ic ml (rev p @ b) q \<noteq> None"
      then obtain p q where e: "c # cs = p @ q" and m: "match_at re ic ml (rev p @ b) q \<noteq> None"
        by blast
      show "\<exists>p q. cs = p @ q \<and> match_at re ic ml (rev p @ c # b) q \<noteq> None"
      proof (cases p)
        case Nil
        with e m None show ?thesis by simp
      next
        case (Cons d ds)
        with e m have "cs = ds @ q \<and> match_at re ic ml (rev ds @ c # b) q \<noteq> None"
          by simp
        then show ?thesis by blast
      qed
    next
      assume "\<exists>p q. cs = p @ q \<and> match_at re ic ml (rev p @ c # b) q \<noteq> None"
      then obtain p q where "cs = p @ q" and "match_at re ic ml (rev p @ c # b) q \<noteq> None"
        by blast
      then have "c # cs = (c # p) @ q \<and> match_at re ic ml (rev (c # p) @ b) q \<noteq> None"
        by simp
      then show "\<exists>p q. c # cs = p @ q \<and> match_at re ic ml (rev p @ b) q \<noteq> None"
        by blast
    qed
    with None Cons.IH[of "c # b"] show ?thesis
      by simp
  qed
qed

lemma list_all2_canonical:
  "list_all2 (char_matches True) t w \<longleftrightarrow> map canonicalize w = map canonicalize t"
proof (induction t arbitrary: w)
  case Nil
  then show ?case by auto
next
  case (Cons a t)
  then show ?case
    by (cases w) (auto simp: char_matches_def)
qed

lemma at_wordb_before_word:
  assumes "w \<noteq> []" "isWordChar (hd w)"
  shows "at_wordb (rev pre) (w @ post) \<longleftrightarrow> pre = [] \<or> \<not> isWordChar (last pre)"
proof (cases pre rule: rev_cases)
  case Nil
  with assms show ?thesis
    by (cases w) (simp_all add: at_wordb_def)
next
  case (snoc ps p)
  with assms show ?thesis
    by (cases w) (simp_all add: at_wordb_def)
qed

lemma at_wordb_after_word:
  assumes "w \<noteq> []" "isWordChar (last w)"
  shows "at_wordb (rev w @ b) post \<longleftrightarrow> post = [] \<or> \<not> isWordChar (hd post)"
proof (cases w rule: rev_cases)
  case Nil
  with assms show ?thesis by simp
next
  case (snoc ws x)
  with assms show ?thesis
    by (cases post) (simp_all add: at_wordb_def)
qed

lemma canonical_word_ends:
  assumes "map canonicalize w = map canonicalize t" "t \<noteq> []"
    "isWordChar (hd t)" "isWordChar (last t)"
  shows "w \<noteq> [] \<and> isWordChar (hd w) \<and> isWordChar (last w)"
proof -
  from assms(1,2) have ne: "w \<noteq> []"
    by auto
  from assms(1) have "hd (map canonicalize w) = hd (map canonicalize t)"
    and "last (map canonicalize w) = last (map canonicalize t)"
    by simp_all
  with ne assms(2) have "canonicalize (hd w) = canonicalize (hd t)"
    and "canonicalize (last w) = canonicalize (last t)"
    by (simp_all add: hd_map last_map)
  with assms(3,4) ne show ?thesis
    by (metis isWordChar_canonicalize)
qed

lemma word_test_iff:
  assumes t: "t \<noteq> []" "isWordChar (hd t)" "isWordChar (last t)"
  shows "regexp_test (seqs [WordB, str t, WordB]) ''i'' c \<longleftrightarrow> spec_whole_word t c"
proof
  assume "regexp_test (seqs [WordB, str t, WordB]) ''i'' c"
  then have "search (seqs [WordB, str t, WordB]) True False [] c \<noteq> None"
    by (simp add: regexp_test_def has_flag_def)
  then have "\<exists>p q. c = p @ q \<and> match_at (seqs [WordB, str t, WordB]) True False (rev p @ []) q \<noteq> None"
    by (simp only: search_iff)
  then obtain p q where c: "c = p @ q"
    and m: "match_at (seqs [WordB, str t, WordB]) True False (rev p) q \<noteq> None"
    by auto
  let ?w = "take (length t) q" and ?post = "drop (length t) q"
  from m have "at_wordb (rev p) q \<and> length t \<le> length q
      \<and> list_all2 (char_matches True) t ?w \<and> at_wordb (rev ?w @ rev p) ?post"
    by (rule match_at_word[THEN iffD1])
  then have b1: "at_wordb (rev p) q" and len: "length t \<le> length q"
    and eq: "map canonicalize ?w = map canonicalize t"
    and b2: "at_wordb (rev ?w @ rev p) ?post"
    by (simp_all add: list_all2_canonical)
  from canonical_word_ends[OF eq t] have w: "?w \<noteq> []" "isWordChar (hd ?w)" "isWordChar (last ?w)"
    by blast+
  have q: "q = ?w @ ?post"
    by simp
  from b1 have "pre_ok": "p = [] \<or> \<not> isWordChar (last p)"
    using at_wordb_before_word[OF w(1,2), of p ?post] by simp
  from b2 have post_ok: "?post = [] \<or> \<not> isWordChar (hd ?post)"
    using at_wordb_after_word[OF w(1,3), of "rev p" ?post] by simp
  from c q have "c = p @ ?w @ ?post"
    by simp
  with eq pre_ok post_ok show "spec_whole_word t c"
    unfolding spec_whole_word_def by blast
next
  assume "spec_whole_word t c"
  then obtain pre w post where c: "c = pre @ w @ post"
    and eq: "map canonicalize w = map canonicalize t"
    and pre_ok: "pre = [] \<or> \<not> isWordChar (last pre)"
    and post_ok: "post = [] \<or> \<not> isWordChar (hd post)"
    unfolding spec_whole_word_def by blast
  from canonical_word_ends[OF eq t] have w: "w \<noteq> []" "isWordChar (hd w)" "isWordChar (last w)"
    by blast+
  from eq have len: "length w = length t"
    by (metis length_map)
  have "at_wordb (rev pre) (w @ post) \<and> length t \<le> length (w @ post)
      \<and> list_all2 (char_matches True) t (take (length t) (w @ post))
      \<and> at_wordb (rev (take (length t) (w @ post)) @ rev pre) (drop (length t) (w @ post))"
    using pre_ok post_ok eq len
      at_wordb_before_word[OF w(1,2), of pre post] at_wordb_after_word[OF w(1,3), of "rev pre" post]
    by (simp add: list_all2_canonical)
  then have "match_at (seqs [WordB, str t, WordB]) True False (rev pre) (w @ post) \<noteq> None"
    by (rule match_at_word[THEN iffD2])
  with c have "\<exists>p q. c = p @ q \<and> match_at (seqs [WordB, str t, WordB]) True False (rev p @ []) q \<noteq> None"
    by auto
  then have "search (seqs [WordB, str t, WordB]) True False [] c \<noteq> None"
    by (simp only: search_iff)
  then show "regexp_test (seqs [WordB, str t, WordB]) ''i'' c"
    by (simp add: regexp_test_def has_flag_def)
qed

subsection \<open>Where the ambiguous-language warnings come from\<close>

lemma filter_push_if:
  "filter Q (push_if c v vs) = filter Q vs @ (if c \<and> Q v then [v] else [])"
  by (simp add: push_if_def)

lemma fold_order_step_keeps:
  assumes "\<And>v. Q v \<Longrightarrow> rule v = ''ambiguous-language''"
  shows "filter Q (snd (fold order_step xs st)) = filter Q (snd st)"
proof (induction xs arbitrary: st)
  case Nil
  then show ?case by simp
next
  case (Cons x xs)
  have "\<not> Q \<lparr>rule = ''section-order'', message = m, severity = s\<rparr>" for m s
    using assms by fastforce
  then have "filter Q (snd (order_step x st)) = filter Q (snd st)"
    by (simp add: order_step_def Let_def filter_push_if)
  with Cons show ?case by simp
qed

lemma validateStructure_keeps:
  assumes "\<And>v. Q v \<Longrightarrow> rule v = ''ambiguous-language''"
  shows "filter Q (validateStructure c vs) = filter Q vs"
proof -
  have "\<not> Q \<lparr>rule = ''required-sections'', message = m, severity = s\<rparr>" for m s
    using assms by fastforce
  then show ?thesis
    by (simp add: validateStructure_def Let_def fold_order_step_keeps[OF assms] filter_push_if)
qed

lemma fold_naming_step_keeps:
  assumes "\<And>v. Q v \<Longrightarrow> rule v = ''ambiguous-language''"
  shows "filter Q (fold naming_step xs vs) = filter Q vs"
proof (induction xs arbitrary: vs)
  case Nil
  then show ?case by simp
next
  case (Cons x xs)
  have "\<not> Q \<lparr>rule = ''variable-naming'', message = m, severity = s\<rparr>" for m s
    using assms by fastforce
  then have "filter Q (naming_step x vs) = filter Q vs"
    by (simp add: naming_step_def filter_push_if)
  with Cons show ?case by simp
qed

lemma validateVariables_keeps:
  assumes "\<And>v. Q v \<Longrightarrow> rule v = ''ambiguous-language''"
  shows "filter Q (validateVariables c vs) = filter Q vs"
proof -
  have "\<not> Q \<lparr>rule = ''variable-format'', message = m, severity = s\<rparr>"
    and "\<not> Q \<lparr>rule = ''variable-usage'', message = m, severity = s\<rparr>" for m s
    using assms by fastforce+
  then show ?thesis
    by (simp add: validateVariables_def Let_def fold_naming_step_keeps[OF assms] filter_push_if)
qed

lemma validateFormat_keeps:
  assumes "\<And>v. Q v \<Longrightarrow> rule v = ''ambiguous-language''"
  shows "filter Q (validateFormat c vs) = filter Q vs"
proof -
  have "\<not> Q \<lparr>rule = ''bullet-consistency'', message = m, severity = s\<rparr>"
    and "\<not> Q \<lparr>rule = ''section-case'', message = m, severity = s\<rparr>"
    and "\<not> Q \<lparr>rule = ''section-spacing'', message = m, severity = s\<rparr>"
    and "\<not> Q \<lparr>rule = ''trailing-whitespace'', message = m, severity = s\<rparr>" for m s
    using assms by fastforce+
  then show ?thesis
    by (simp add: validateFormat_def Let_def filter_push_if)
qed

lemma fold_sentence_step_keeps:
  assumes "\<And>v. Q v \<Longrightarrow> rule v = ''ambiguous-language''"
  shows "filter Q (fold sentence_step xs vs) = filter Q vs"
proof (induction xs arbitrary: vs)
  case Nil
  then show ?case by simp
next
  case (Cons x xs)
  have "\<not> Q \<lparr>rule = ''sentence-length'', message = m, severity = s\<rparr>" for m s
    using assms by fastforce
  then have "filter Q (sentence_step x vs) = filter Q vs"
    by (simp add: sentence_step_def filter_push_if)
  with Cons show ?case by simp
qed

lemma fold_ambiguous_step:
  "fold (ambiguous_step c) ts vs =
     vs @ map (\<lambda>t. \<lparr>rule = ''ambiguous-language'',
                     message = ''Avoid ambiguous terms like '' @ dquote @ t @ dquote,
                     severity = Warning\<rparr>)
            (filter (\<lambda>t. regexp_test (seqs [WordB, str t, WordB]) ''i'' c) ts)"
  by (induction ts arbitrary: vs) (simp_all add: ambiguous_step_def push_if_def)

lemma validateContent_ambiguous:
  assumes "\<And>v. Q v \<Longrightarrow> rule v = ''ambiguous-language''"
  shows "filter Q (validateContent c vs) =
     filter Q vs @ filter Q (map (\<lambda>t. \<lparr>rule = ''ambiguous-language'',
                     message = ''Avoid ambiguous terms like '' @ dquote @ t @ dquote,
                     severity = Warning\<rparr>)
            (filter (\<lambda>t. regexp_test (seqs [WordB, str t, WordB]) ''i'' c) ambiguousTerms))"
proof -
  have "\<not> Q \<lparr>rule = ''nested-instructions'', message = m, severity = s\<rparr>" for m s
    using assms by fastforce
  then show ?thesis
    by (simp add: validateContent_def Let_def fold_ambiguous_step fold_sentence_step_keeps[OF assms]
        filter_push_if)
qed

lemma validateTemplate_ambiguous:
  assumes "\<And>v. Q v \<Longrightarrow> rule v = ''ambiguous-language''"
  shows "filter Q (violations (validateTemplate c)) =
     filter Q (map (\<lambda>t. \<lparr>rule = ''ambiguous-language'',
                     message = ''Avoid ambiguous terms like '' @ dquote @ t @ dquote,
                     severity = Warning\<rparr>)
            (filter (\<lambda>t. regexp_test (seqs [WordB, str t, WordB]) ''i'' c) ambiguousTerms))"
proof -
  have "\<not> Q \<lparr>rule = ''schema'', message = m, severity = s\<rparr>" for m s
    using assms by fastforce
  then show ?thesis
    by (simp add: validateTemplate_def Let_def validateFormat_keeps[OF assms]
        validateVariables_keeps[OF assms] validateContent_ambiguous[OF assms]
        validateStructure_keeps[OF assms] split: option.splits)
qed

lemma ambiguousTerms_are_words:
  "t \<in> set ambiguousTerms \<Longrightarrow> t \<noteq> [] \<and> isWordChar (hd t) \<and> isWordChar (last t)"
  by (auto simp: ambiguousTerms_def isWordChar_def in_range_def char_le_def)

lemma only_one_such_term:
  "t \<in> set ambiguousTerms \<Longrightarrow> filter (\<lambda>u. u = t) ambiguousTerms = [t]"
  by (auto simp: ambiguousTerms_def)

lemma mentions_own_term_only:
  assumes "t \<in> set ambiguousTerms" "u \<in> set ambiguousTerms"
  shows "str_includes (''Avoid ambiguous terms like '' @ dquote @ u @ dquote) t \<longleftrightarrow> u = t"
proof -
  from assms(1) have "t = ''maybe'' \<or> t = ''probably'' \<or> t = ''possibly'' \<or> t = ''might''
      \<or> t = ''could'' \<or> t = ''should'' \<or> t = ''would''"
    by (simp add: ambiguousTerms_def)
  moreover from assms(2) have "u = ''maybe'' \<or> u = ''probably'' \<or> u = ''possibly'' \<or> u = ''might''
      \<or> u = ''could'' \<or> u = ''should'' \<or> u = ''would''"
    by (simp add: ambiguousTerms_def)
  ultimately show ?thesis
    by (elim disjE; simp add: dquote_def)
qed

text \<open>C8: a term of the fixed list that occurs in the text as a whole word, in any letter
  case, gives exactly one ambiguous-language entry that mentions it; a term that does
  not occur as a whole word (as "might" in "mighty") gives none; and every
  ambiguous-language entry is a warning.\<close>

theorem ambiguous_term_detection:
  assumes "t \<in> set ambiguousTerms"
  shows "length (filter (\<lambda>v. rule v = ''ambiguous-language'' \<and> str_includes (message v) t)
                  (violations (validateTemplate c)))
           = (if spec_whole_word t c then 1 else 0)
         \<and> filter (\<lambda>v. rule v = ''ambiguous-language'' \<and> severity v \<noteq> Warning)
                  (violations (validateTemplate c)) = []"
proof -
  define msg where "msg u = ''Avoid ambiguous terms like '' @ dquote @ u @ dquote" for u
  define tested where "tested u = regexp_test (seqs [WordB, str u, WordB]) ''i'' c" for u
  define mk where "mk u = \<lparr>rule = ''ambiguous-language'', message = msg u, severity = Warning\<rparr>" for u
  define found where "found = filter tested ambiguousTerms"
  have own: "str_includes (msg u) t \<longleftrightarrow> u = t" if "u \<in> set ambiguousTerms" for u
    unfolding msg_def using assms that by (rule mentions_own_term_only)
  have all: "filter Q (violations (validateTemplate c)) = filter Q (map mk found)"
    if "\<And>v. Q v \<Longrightarrow> rule v = ''ambiguous-language''" for Q
    unfolding found_def mk_def msg_def tested_def using that by (rule validateTemplate_ambiguous)
  have "filter (\<lambda>v. rule v = ''ambiguous-language'' \<and> str_includes (message v) t) (map mk found)
      = map mk (filter (\<lambda>u. str_includes (msg u) t) found)"
    by (simp add: filter_map comp_def mk_def)
  also have "filter (\<lambda>u. str_includes (msg u) t) found = filter (\<lambda>u. u = t) found"
    by (rule filter_cong) (simp_all add: own found_def)
  also have "filter (\<lambda>u. u = t) found = filter tested (filter (\<lambda>u. u = t) ambiguousTerms)"
    by (simp add: found_def conj_commute)
  also have "\<dots> = (if tested t then [t] else [])"
    by (simp add: only_one_such_term[OF assms])
  finally have "length (filter (\<lambda>v. rule v = ''ambiguous-language'' \<and> str_includes (message v) t)
        (map mk found)) = (if tested t then 1 else 0)"
    by simp
  moreover have "tested t \<longleftrightarrow> spec_whole_word t c"
    unfolding tested_def using ambiguousTerms_are_words[OF assms] by (simp add: word_test_iff)
  ultimately have count: "length (filter (\<lambda>v. rule v = ''ambiguous-language'' \<and> str_includes (message v) t)
        (map mk found)) = (if spec_whole_word t c then 1 else 0)"
    by simp
  have warn: "filter (\<lambda>v. rule v = ''ambiguous-language'' \<and> severity v \<noteq> Warning) (map mk found) = []"
    by (simp add: filter_map comp_def mk_def)
  have a1: "filter (\<lambda>v. rule v = ''ambiguous-language'' \<and> str_includes (message v) t)
        (violations (validateTemplate c))
      = filter (\<lambda>v. rule v = ''ambiguous-language'' \<and> str_includes (message v) t) (map mk found)"
    by (rule all) simp
  have a2: "filter (\<lambda>v. rule v = ''ambiguous-language'' \<and> severity v \<noteq> Warning)
        (violations (validateTemplate c))
      = filter (\<lambda>v. rule v = ''ambiguous-language'' \<and> severity v \<noteq> Warning) (map mk found)"
    by (rule all) simp
  show ?thesis
    unfolding a1 a2 using count warn by simp
qed

text \<open>The term "might" in "It Might rain" and in "a mighty wind".\<close>

theorem ambiguous_term_detection_witness:
  "''might'' \<in> set ambiguousTerms
   \<and> spec_whole_word ''might'' ''It Might rain''
   \<and> length (filter (\<lambda>v. rule v = ''ambiguous-language'' \<and> str_includes (message v) ''might'')
               (violations (validateTemplate ''It Might rain''))) = 1
   \<and> \<not> spec_whole_word ''might'' ''a mighty wind''
   \<and> length (filter (\<lambda>v. rule v = ''ambiguous-language'' \<and> str_includes (message v) ''might'')
               (violations (validateTemplate ''a mighty wind''))) = 0"
proof -
  have m: "''might'' \<in> set ambiguousTerms"
    by (simp add: ambiguousTerms_def)
  have "''It Might rain'' = ''It '' @ ''Might'' @ '' rain''
      \<and> map canonicalize ''Might'' = map canonicalize ''might''
      \<and> (''It '' = [] \<or> \<not> isWordChar (last ''It ''))
      \<and> ('' rain'' = [] \<or> \<not> isWordChar (hd '' rain''))"
    by code_simp
  then have w: "spec_whole_word ''might'' ''It Might rain''"
    unfolding spec_whole_word_def by blast
  have z: "length (filter (\<lambda>v. rule v = ''ambiguous-language'' \<and> str_includes (message v) ''might'')
               (violations (validateTemplate ''a mighty wind''))) = 0"
    by code_simp
  from m w z ambiguous_term_detection[OF m, of "''It Might rain''"]
    ambiguous_term_detection[OF m, of "''a mighty wind''"]
  show ?thesis
    by (simp split: if_splits)
qed

subsection \<open>Concrete templates\<close>

text \<open>C1 at a template in normal form, which the validator accepts.\<close>

theorem validate_isValid_witness:
  "isValid (validateTemplate normal_form_template)
   \<and> length (violations (validateTemplate normal_form_template)) = 0"
proof -
  have "violations (validateTemplate normal_form_template) = []"
    by code_simp
  with validate_isValid_iff_no_violations[of normal_form_template] show ?thesis
    by simp
qed

text \<open>C10 at a text without sections, which the structure pass rewrites whole.\<close>

theorem enhance_keeps_originalContent_witness:
  "\<exists>r. enhanceTemplate ''Please summarize this document.'' = Inr r
       \<and> originalContent r = ''Please summarize this document.''"
  using enhance_keeps_originalContent[of "''Please summarize this document.''"] .

text \<open>C6: enhancing a template that is already in normal form should change nothing
  and log nothing. \<open>normal_form_template\<close> has the four sections at line starts in upper
  case, each after a blank line, one canonical variable, one bullet written with a
  hyphen and a space, no trailing white space and no repeated line; the validator
  accepts it, and neither the variable pass nor the deduplication pass touches it. The
  formatting pass leaves the content as it is too, but logs a bullet standardisation
  whenever a bullet is present.\<close>

theorem enhance_normal_form_logs_bullets:
  "isValid (validateTemplate normal_form_template)
   \<and> formatTemplateVariables normal_form_template [] = (normal_form_template, [])
   \<and> removeRedundancies normal_form_template [] = (normal_form_template, [])
   \<and> enhanceTemplate normal_form_template =
       Inr \<lparr>enhancedContent = normal_form_template,
            changes = [''Standardized bullet point format to '' @ dquote @ ''-'' @ dquote],
            originalContent = normal_form_template\<rparr>"
  by code_simp

text \<open>C7: the text "Please summarize this document." has no labeled section; the
  enhancer returns a document with the sections ROLE, CONTEXT, TASK and FORMAT, in that
  order, and its change log has the entry for the added structure.\<close>

theorem enhance_unstructured_text:
  "enhanceTemplate ''Please summarize this document.'' = Inr summarize_enhanced
   \<and> identifySections (enhancedContent summarize_enhanced)
       = \<lparr>sec_role = True, sec_context = True, sec_task = True, sec_format = True\<rparr>
   \<and> foundSections (enhancedContent summarize_enhanced) = [''ROLE'', ''CONTEXT'', ''TASK'', ''FORMAT'']
   \<and> ''Added basic template structure (ROLE, CONTEXT, TASK, FORMAT sections)''
       \<in> set (changes summarize_enhanced)"
  by code_simp

text \<open>C9, as the code has it: on the empty text the validator reports exactly one schema
  entry, an error, and the verdict is false; analyze returns too, but says nothing
  about the emptiness: both issue lists are empty, both scores are 100 and the four
  structure flags are false.\<close>

theorem empty_text_reports:
  "filter (\<lambda>v. rule v = ''schema'') (violations (validateTemplate []))
     = [\<lparr>rule = ''schema'', message = ''Template content cannot be empty'', severity = Error\<rparr>]
   \<and> \<not> isValid (validateTemplate [])
   \<and> analyze [] \<noteq> None
   \<and> issues (contentAnalysis (the (analyze []))) = []
   \<and> issues (patternAnalysis (the (analyze []))) = []
   \<and> score (contentAnalysis (the (analyze []))) = 100
   \<and> score (patternAnalysis (the (analyze []))) = 100
   \<and> structure (structureAnalysis (the (analyze [])))
       = \<lparr>hasRole = False, hasContext = False, hasTask = False, hasResponseFormat = False\<rparr>"
  by code_simp

text \<open>The claim as it was stated fails at the empty text: analyze reports no issue.\<close>

theorem analyze_empty_counterexample:
  "analyze [] \<noteq> None
   \<and> issues (contentAnalysis (the (analyze []))) @ issues (patternAnalysis (the (analyze []))) = []"
  by code_simp

end
